theory Spec2Isabelle
  imports Main "HOL-Library.Word"
begin

unbundle bit_operations_syntax

section \<open>The event scheduler of odp_schedule.c\<close>

text \<open>
  A shallow embedding of \<^verbatim>\<open>platform/linux-generic/odp_schedule.c\<close>: the priority
  fabric (\<^verbatim>\<open>pri_set\<close>, \<^verbatim>\<open>pri_clr\<close>), the schedule groups, the per-thread context
  and its release functions, the dispatcher \<^verbatim>\<open>schedule\<close> with its waiting wrapper
  \<^verbatim>\<open>schedule_loop\<close>, and the ordered locks.

  Conventions. A C array is a list; its declared size is the length of the list, so
  the configuration constants that size the tables (\<^verbatim>\<open>ODP_CONFIG_SCHED_PRIOS\<close>,
  \<^verbatim>\<open>ODP_CONFIG_SCHED_GRPS\<close>, \<^verbatim>\<open>ODP_SCHED_GROUP_NAME_LEN\<close>,
  \<^verbatim>\<open>ODP_CONFIG_MAX_ORDERED_LOCKS_PER_QUEUE\<close>), which are declared in headers outside
  this file, are the lengths of those lists. \<^verbatim>\<open>uint8_t\<close>, \<^verbatim>\<open>uint32_t\<close> and
  \<^verbatim>\<open>uint64_t\<close> are words of that width; \<^verbatim>\<open>int\<close> counters that stay within
  \<^verbatim>\<open>MAX_DEQ\<close> are \<open>int\<close>. A handle that can be \<^verbatim>\<open>ODP_QUEUE_INVALID\<close>,
  \<^verbatim>\<open>ODP_EVENT_INVALID\<close> or \<^verbatim>\<open>NULL\<close> is an \<open>option\<close>. \<^verbatim>\<open>ODP_ABORT\<close> is the
  value \<open>Abort\<close>. The two spinlocks protect critical sections that the model runs
  as single steps.
\<close>

subsection \<open>Constants\<close>

text \<open>\<^verbatim>\<open>#define QUEUES_PER_PRIO 4\<close> and \<^verbatim>\<open>#define MAX_DEQ 4\<close>.\<close>

definition QUEUES_PER_PRIO :: nat where
  "QUEUES_PER_PRIO = 4"

definition MAX_DEQ :: nat where
  "MAX_DEQ = 4"

text \<open>
  The schedule group ids are declared in a header outside this file. The spec has
  three well-known groups ALL, WORKER and CONTROL at the indices \<open>0..W-1\<close> below the
  named slots, and a sentinel \<^verbatim>\<open>INVALID\<close> that is no index of the table.
\<close>

text \<open>Modelled from the spec: \<^verbatim>\<open>ODP_SCHED_GROUP_INVALID\<close>, the sentinel, no index.\<close>

definition ODP_SCHED_GROUP_INVALID :: int where
  "ODP_SCHED_GROUP_INVALID = - 1"

text \<open>Modelled from the spec: \<^verbatim>\<open>ODP_SCHED_GROUP_ALL\<close>, the first well-known group.\<close>

definition ODP_SCHED_GROUP_ALL :: int where
  "ODP_SCHED_GROUP_ALL = 0"

text \<open>Modelled from the spec: \<^verbatim>\<open>ODP_SCHED_GROUP_WORKER\<close>, the second well-known group.\<close>

definition ODP_SCHED_GROUP_WORKER :: int where
  "ODP_SCHED_GROUP_WORKER = 1"

text \<open>
  Modelled from the spec: \<^verbatim>\<open>ODP_SCHED_GROUP_CONTROL\<close>, the third and last well-known
  group (\<open>W = 3\<close>).
\<close>

definition ODP_SCHED_GROUP_CONTROL :: int where
  "ODP_SCHED_GROUP_CONTROL = 2"

text \<open>\<^verbatim>\<open>#define _ODP_SCHED_GROUP_NAMED (ODP_SCHED_GROUP_CONTROL + 1)\<close>.\<close>

definition ODP_SCHED_GROUP_NAMED :: int where
  "ODP_SCHED_GROUP_NAMED = ODP_SCHED_GROUP_CONTROL + 1"

subsection \<open>The global scheduler context \<^verbatim>\<open>sched_t\<close>\<close>

text \<open>
  One slot of \<^verbatim>\<open>sched_grp[]\<close>, its fields prefixed with \<open>grp_\<close>: the name buffer
  (\<^verbatim>\<open>ODP_SCHED_GROUP_NAME_LEN\<close> bytes) and the thread mask the slot points to. \<^verbatim>\<open>thread_sched_grp_mask(i)\<close> gives every
  slot a mask of its own, so the mask is stored in the slot. The thread mask type
  \<^verbatim>\<open>odp_thrmask_t\<close> is a bit set; the model uses a word \<open>'w word\<close> of any width.
\<close>

record 'm sched_grp_t =
  grp_name :: "char list"
  grp_mask :: "'m"

type_synonym pri_mask_t = "8 word"

record 'm sched_t =
  pri_queue :: "nat list list"
  pri_mask :: "pri_mask_t list"
  pri_count :: "32 word list list"
  sched_grp :: "'m sched_grp_t list"

definition ODP_CONFIG_SCHED_PRIOS :: "'m sched_t \<Rightarrow> nat" where
  "ODP_CONFIG_SCHED_PRIOS s = length (pri_mask s)"

definition ODP_CONFIG_SCHED_GRPS :: "'m sched_t \<Rightarrow> nat" where
  "ODP_CONFIG_SCHED_GRPS s = length (sched_grp s)"

text \<open>
  The part of \<^verbatim>\<open>odp_schedule_init_global\<close> that fills \<^verbatim>\<open>sched_t\<close>: the
  \<^verbatim>\<open>memset\<close> to zero, the lane queues (lane \<open>j\<close> of priority \<open>i\<close> gets the handle
  \<open>i * QUEUES_PER_PRIO + j + 1\<close>, all distinct), the zeroed names and the masks
  \<open>grp_masks\<close> that \<^verbatim>\<open>thread_sched_grp_mask\<close> hands out. \<open>P\<close>, \<open>G\<close> and \<open>N\<close> are
  \<^verbatim>\<open>ODP_CONFIG_SCHED_PRIOS\<close>, \<^verbatim>\<open>ODP_CONFIG_SCHED_GRPS\<close> and
  \<^verbatim>\<open>ODP_SCHED_GROUP_NAME_LEN\<close>.
\<close>

definition sched_init :: "nat \<Rightarrow> nat \<Rightarrow> nat \<Rightarrow> (nat \<Rightarrow> 'm) \<Rightarrow> 'm sched_t" where
  "sched_init P G N grp_masks =
     \<lparr> pri_queue = map (\<lambda>i. map (\<lambda>j. i * QUEUES_PER_PRIO + j + 1) [0..<QUEUES_PER_PRIO]) [0..<P],
       pri_mask = replicate P 0,
       pri_count = replicate P (replicate QUEUES_PER_PRIO 0),
       sched_grp = map (\<lambda>i. \<lparr> grp_name = replicate N (CHR 0x00), grp_mask = grp_masks i \<rparr>) [0..<G] \<rparr>"

subsection \<open>Priority fabric\<close>

text \<open>
  \<^verbatim>\<open>sched->pri_mask[prio] |= 1 << id\<close>: the mask byte is promoted to \<^verbatim>\<open>int\<close>, or-ed
  with the shifted one and truncated back to \<^verbatim>\<open>uint8_t\<close>.
\<close>

definition mask_set_bit :: "pri_mask_t \<Rightarrow> nat \<Rightarrow> pri_mask_t" where
  "mask_set_bit m i = ucast ((ucast m :: 32 word) OR push_bit i 1)"

text \<open>\<^verbatim>\<open>sched->pri_mask[prio] &= (uint8_t)(~(1 << id))\<close>.\<close>

definition mask_clr_bit :: "pri_mask_t \<Rightarrow> nat \<Rightarrow> pri_mask_t" where
  "mask_clr_bit m i = m AND (ucast (NOT (push_bit i (1 :: 32 word))) :: 8 word)"

text \<open>The dispatcher's test \<^verbatim>\<open>(sched->pri_mask[i] & (1 << id)) == 0\<close>, negated.\<close>

definition mask_bit_set :: "pri_mask_t \<Rightarrow> nat \<Rightarrow> bool" where
  "mask_bit_set m i \<longleftrightarrow> (ucast m :: 32 word) AND push_bit i 1 \<noteq> 0"

text \<open>
  \<^verbatim>\<open>pri_set(id, prio)\<close>: sets the mask bit, increments the count (a
  \<^verbatim>\<open>uint32_t\<close>, so the increment wraps) and returns the lane's queue handle.
\<close>

definition pri_set :: "nat \<Rightarrow> nat \<Rightarrow> 'm sched_t \<Rightarrow> nat \<times> 'm sched_t" where
  "pri_set i prio s =
     (pri_queue s ! prio ! i,
      s\<lparr> pri_mask := (pri_mask s)[prio := mask_set_bit (pri_mask s ! prio) i],
         pri_count := (pri_count s)[prio := (pri_count s ! prio)[i := pri_count s ! prio ! i + 1]] \<rparr>)"

text \<open>
  \<^verbatim>\<open>pri_clr(id, prio)\<close>: decrements the count (wrapping below zero) and clears the
  mask bit when the new count is zero.
\<close>

definition pri_clr :: "nat \<Rightarrow> nat \<Rightarrow> 'm sched_t \<Rightarrow> 'm sched_t" where
  "pri_clr i prio s =
     (let s1 = s\<lparr> pri_count := (pri_count s)[prio := (pri_count s ! prio)[i := pri_count s ! prio ! i - 1]] \<rparr>
      in if pri_count s1 ! prio ! i = 0
         then s1\<lparr> pri_mask := (pri_mask s1)[prio := mask_clr_bit (pri_mask s1 ! prio) i] \<rparr>
         else s1)"

text \<open>
  \<^verbatim>\<open>pri_id_queue\<close> and \<^verbatim>\<open>pri_id_pktio\<close>: the lane of a source is the low bits of its
  id, \<^verbatim>\<open>(QUEUES_PER_PRIO-1) & id\<close>. The ids come from \<^verbatim>\<open>queue_to_id\<close> and
  \<^verbatim>\<open>pktio_to_id\<close>, which are outside this file, so the functions take the id.
\<close>

definition pri_id_queue :: "nat \<Rightarrow> nat" where
  "pri_id_queue queue_id = (QUEUES_PER_PRIO - 1) AND queue_id"

definition pri_id_pktio :: "nat \<Rightarrow> nat" where
  "pri_id_pktio pktio_id = (QUEUES_PER_PRIO - 1) AND pktio_id"

definition pri_set_queue :: "nat \<Rightarrow> nat \<Rightarrow> 'm sched_t \<Rightarrow> nat \<times> 'm sched_t" where
  "pri_set_queue queue_id prio s = pri_set (pri_id_queue queue_id) prio s"

definition pri_set_pktio :: "nat \<Rightarrow> nat \<Rightarrow> 'm sched_t \<Rightarrow> nat \<times> 'm sched_t" where
  "pri_set_pktio pktio_id prio s = pri_set (pri_id_pktio pktio_id) prio s"

definition pri_clr_queue :: "nat \<Rightarrow> nat \<Rightarrow> 'm sched_t \<Rightarrow> 'm sched_t" where
  "pri_clr_queue queue_id prio s = pri_clr (pri_id_queue queue_id) prio s"

definition pri_clr_pktio :: "nat \<Rightarrow> nat \<Rightarrow> 'm sched_t \<Rightarrow> 'm sched_t" where
  "pri_clr_pktio pktio_id prio s = pri_clr (pri_id_pktio pktio_id) prio s"

text \<open>
  Sequences of attach and detach operations on the fabric, and the relation between
  mask and counts that the data model states: the bit of lane \<open>i\<close> is set in
  \<open>pri_mask[p]\<close> exactly when \<open>pri_count[p][i]\<close> is not zero.
\<close>

datatype pri_op = Pri_Set nat nat | Pri_Clr nat nat

fun pri_step :: "pri_op \<Rightarrow> 'm sched_t \<Rightarrow> 'm sched_t" where
  "pri_step (Pri_Set i prio) s = snd (pri_set i prio s)"
| "pri_step (Pri_Clr i prio) s = pri_clr i prio s"

fun pri_run :: "pri_op list \<Rightarrow> 'm sched_t \<Rightarrow> 'm sched_t" where
  "pri_run [] s = s"
| "pri_run (x # xs) s = pri_run xs (pri_step x s)"

definition pri_consistent :: "'m sched_t \<Rightarrow> bool" where
  "pri_consistent s \<longleftrightarrow>
     list_all (\<lambda>p. list_all (\<lambda>i. mask_bit_set (pri_mask s ! p) i = (0 < pri_count s ! p ! i))
                       [0..<QUEUES_PER_PRIO])
       [0..<length (pri_mask s)]"

text \<open>The tables have their declared sizes.\<close>

definition fabric_sized :: "'m sched_t \<Rightarrow> bool" where
  "fabric_sized s \<longleftrightarrow>
     length (pri_count s) = length (pri_mask s) \<and>
     list_all (\<lambda>row. length row = QUEUES_PER_PRIO) (pri_count s)"

text \<open>
  A sequence is balanced when every operation names a lane of the fabric, no
  \<^verbatim>\<open>pri_clr\<close> meets a count of zero and no \<^verbatim>\<open>pri_set\<close> meets a count of
  \<open>2^32 - 1\<close>: every detach undoes an earlier attach, and the counter never wraps.
\<close>

fun pri_balanced :: "pri_op list \<Rightarrow> 'm sched_t \<Rightarrow> bool" where
  "pri_balanced [] s = True"
| "pri_balanced (Pri_Set i prio # xs) s =
     (prio < length (pri_mask s) \<and> i < QUEUES_PER_PRIO \<and> pri_count s ! prio ! i \<noteq> - 1 \<and>
      pri_balanced xs (pri_step (Pri_Set i prio) s))"
| "pri_balanced (Pri_Clr i prio # xs) s =
     (prio < length (pri_mask s) \<and> i < QUEUES_PER_PRIO \<and> pri_count s ! prio ! i \<noteq> 0 \<and>
      pri_balanced xs (pri_step (Pri_Clr i prio) s))"


subsection \<open>Schedule groups\<close>

text \<open>
  C strings. A \<^verbatim>\<open>const char *\<close> argument and a name buffer are byte lists; the string
  they hold is the bytes before the first NUL. \<^verbatim>\<open>strcmp(a, b) == 0\<close> holds when the two
  strings are equal. \<^verbatim>\<open>strncpy(dest, src, n)\<close> writes the first \<open>n\<close> bytes of \<open>dest\<close>:
  the string \<open>src\<close> cut to \<open>n\<close> bytes and padded with NUL; the bytes of \<open>dest\<close> from
  \<open>n\<close> on stay (here \<open>n\<close> is the buffer's size minus one, so the last byte stays).
\<close>

definition c_str :: "char list \<Rightarrow> char list" where
  "c_str bs = takeWhile (\<lambda>c. c \<noteq> CHR 0x00) bs"

definition strcmp_eq :: "char list \<Rightarrow> char list \<Rightarrow> bool" where
  "strcmp_eq a b \<longleftrightarrow> c_str a = c_str b"

definition strncpy :: "char list \<Rightarrow> char list \<Rightarrow> nat \<Rightarrow> char list" where
  "strncpy dest src n =
     take n (c_str src) @ replicate (n - length (c_str src)) (CHR 0x00) @ drop n dest"

definition ODP_SCHED_GROUP_NAME_LEN :: "'m sched_grp_t \<Rightarrow> nat" where
  "ODP_SCHED_GROUP_NAME_LEN g = length (grp_name g)"

text \<open>
  \<^verbatim>\<open>sched_mask_all\<close>: the global that \<^verbatim>\<open>odp_schedule_init_global\<close> fills with
  \<^verbatim>\<open>odp_thrmask_setall\<close> and nothing writes afterwards: every bit set.
\<close>

definition sched_mask_all :: "'w::len word" where
  "sched_mask_all = - 1"

text \<open>\<^verbatim>\<open>odp_thrmask_isset(mask, thr)\<close>.\<close>

definition odp_thrmask_isset :: "'w::len word \<Rightarrow> nat \<Rightarrow> bool" where
  "odp_thrmask_isset m thr = bit m thr"

text \<open>
  \<^verbatim>\<open>odp_schedule_group_create\<close>: the first slot from \<^verbatim>\<open>_ODP_SCHED_GROUP_NAMED\<close> on
  whose name starts with NUL takes the name (cut to \<^verbatim>\<open>ODP_SCHED_GROUP_NAME_LEN - 1\<close>
  bytes) and a copy of the mask; without such a slot the result is
  \<^verbatim>\<open>ODP_SCHED_GROUP_INVALID\<close>.
\<close>

definition odp_schedule_group_create ::
  "char list \<Rightarrow> 'm \<Rightarrow> 'm sched_t \<Rightarrow> int \<times> 'm sched_t" where
  "odp_schedule_group_create nm m s =
     (case find (\<lambda>i. grp_name (sched_grp s ! i) ! 0 = CHR 0x00)
             [nat ODP_SCHED_GROUP_NAMED ..< ODP_CONFIG_SCHED_GRPS s] of
        None \<Rightarrow> (ODP_SCHED_GROUP_INVALID, s)
      | Some i \<Rightarrow>
          (int i,
           s\<lparr> sched_grp := (sched_grp s)
                [i := \<lparr> grp_name = strncpy (grp_name (sched_grp s ! i)) nm
                                     (ODP_SCHED_GROUP_NAME_LEN (sched_grp s ! i) - 1),
                        grp_mask = m \<rparr>] \<rparr>))"

text \<open>
  \<^verbatim>\<open>odp_schedule_group_destroy\<close>: for a named slot that is in use, zero the mask and
  the name and return 0; otherwise return -1.
\<close>

definition odp_schedule_group_destroy ::
  "int \<Rightarrow> ('w::len) word sched_t \<Rightarrow> int \<times> 'w word sched_t" where
  "odp_schedule_group_destroy grp s =
     (if grp < int (ODP_CONFIG_SCHED_GRPS s) \<and> grp \<ge> ODP_SCHED_GROUP_NAMED \<and>
         grp_name (sched_grp s ! nat grp) ! 0 \<noteq> CHR 0x00
      then (0, s\<lparr> sched_grp := (sched_grp s)
                    [nat grp := \<lparr> grp_name = replicate (ODP_SCHED_GROUP_NAME_LEN
                                                  (sched_grp s ! nat grp)) (CHR 0x00),
                                    grp_mask = 0 \<rparr>] \<rparr>)
      else (- 1, s))"

text \<open>\<^verbatim>\<open>odp_schedule_group_lookup\<close>: the first named slot whose name compares equal.\<close>

definition odp_schedule_group_lookup :: "char list \<Rightarrow> 'm sched_t \<Rightarrow> int" where
  "odp_schedule_group_lookup nm s =
     (case find (\<lambda>i. strcmp_eq nm (grp_name (sched_grp s ! i)))
             [nat ODP_SCHED_GROUP_NAMED ..< ODP_CONFIG_SCHED_GRPS s] of
        None \<Rightarrow> ODP_SCHED_GROUP_INVALID
      | Some i \<Rightarrow> int i)"

text \<open>\<^verbatim>\<open>odp_schedule_group_join\<close>: \<^verbatim>\<open>odp_thrmask_or\<close> of the slot's mask and the argument.\<close>

definition odp_schedule_group_join ::
  "int \<Rightarrow> ('w::len) word \<Rightarrow> 'w word sched_t \<Rightarrow> int \<times> 'w word sched_t" where
  "odp_schedule_group_join grp m s =
     (if grp < int (ODP_CONFIG_SCHED_GRPS s) \<and> grp \<ge> ODP_SCHED_GROUP_NAMED \<and>
         grp_name (sched_grp s ! nat grp) ! 0 \<noteq> CHR 0x00
      then (0, s\<lparr> sched_grp := (sched_grp s)
                    [nat grp := (sched_grp s ! nat grp)
                       \<lparr> grp_mask := grp_mask (sched_grp s ! nat grp) OR m \<rparr>] \<rparr>)
      else (- 1, s))"

text \<open>
  \<^verbatim>\<open>odp_schedule_group_leave\<close>: \<^verbatim>\<open>leavemask = mask ^ sched_mask_all\<close>, then the slot's
  mask is and-ed with it.
\<close>

definition odp_schedule_group_leave ::
  "int \<Rightarrow> ('w::len) word \<Rightarrow> 'w word sched_t \<Rightarrow> int \<times> 'w word sched_t" where
  "odp_schedule_group_leave grp m s =
     (if grp < int (ODP_CONFIG_SCHED_GRPS s) \<and> grp \<ge> ODP_SCHED_GROUP_NAMED \<and>
         grp_name (sched_grp s ! nat grp) ! 0 \<noteq> CHR 0x00
      then (let leavemask = m XOR sched_mask_all
            in (0, s\<lparr> sched_grp := (sched_grp s)
                    [nat grp := (sched_grp s ! nat grp)
                       \<lparr> grp_mask := grp_mask (sched_grp s ! nat grp) AND leavemask \<rparr>] \<rparr>))
      else (- 1, s))"

text \<open>
  \<^verbatim>\<open>odp_schedule_group_thrmask\<close>: the result code and what is written to
  \<^verbatim>\<open>*thrmask\<close> (\<open>None\<close>: nothing is written).
\<close>

definition odp_schedule_group_thrmask :: "int \<Rightarrow> 'm sched_t \<Rightarrow> int \<times> 'm option" where
  "odp_schedule_group_thrmask grp s =
     (if grp < int (ODP_CONFIG_SCHED_GRPS s) \<and> grp \<ge> ODP_SCHED_GROUP_NAMED \<and>
         grp_name (sched_grp s ! nat grp) ! 0 \<noteq> CHR 0x00
      then (0, Some (grp_mask (sched_grp s ! nat grp)))
      else (- 1, None))"

text \<open>Sequences of the group operations that write the table.\<close>

datatype 'm grp_op =
  Grp_Create "char list" 'm | Grp_Destroy int | Grp_Join int 'm | Grp_Leave int 'm

fun grp_step :: "('w::len) word grp_op \<Rightarrow> 'w word sched_t \<Rightarrow> 'w word sched_t" where
  "grp_step (Grp_Create nm m) s = snd (odp_schedule_group_create nm m s)"
| "grp_step (Grp_Destroy g) s = snd (odp_schedule_group_destroy g s)"
| "grp_step (Grp_Join g m) s = snd (odp_schedule_group_join g m s)"
| "grp_step (Grp_Leave g m) s = snd (odp_schedule_group_leave g m s)"

fun grp_run :: "('w::len) word grp_op list \<Rightarrow> 'w word sched_t \<Rightarrow> 'w word sched_t" where
  "grp_run [] s = s"
| "grp_run (x # xs) s = grp_run xs (grp_step x s)"

text \<open>
  Every name buffer has the same size \<open>N\<close>, at least one byte, and ends with NUL:
  \<^verbatim>\<open>odp_schedule_init_global\<close> zeroes the buffers, \<^verbatim>\<open>strncpy\<close> never writes the last
  byte and \<^verbatim>\<open>memset\<close> writes NUL.
\<close>

definition names_terminated :: "nat \<Rightarrow> 'm sched_t \<Rightarrow> bool" where
  "names_terminated N s \<longleftrightarrow>
     0 < N \<and> list_all (\<lambda>g. length (grp_name g) = N \<and> last (grp_name g) = CHR 0x00) (sched_grp s)"

text \<open>
  An operation that gives up the slot \<open>g\<close> or stores the string \<open>str\<close> in another
  slot: \<^verbatim>\<open>group_destroy\<close> of \<open>g\<close>, and \<^verbatim>\<open>group_create\<close> of a name whose first \<open>N - 1\<close>
  bytes are \<open>str\<close>.
\<close>

fun grp_op_disturbs :: "nat \<Rightarrow> int \<Rightarrow> char list \<Rightarrow> 'm grp_op \<Rightarrow> bool" where
  "grp_op_disturbs N g str (Grp_Create nm m) = (take (N - 1) (c_str nm) = str)"
| "grp_op_disturbs N g str (Grp_Destroy g') = (g' = g)"
| "grp_op_disturbs N g str (Grp_Join g' m) = False"
| "grp_op_disturbs N g str (Grp_Leave g' m) = False"

text \<open>
  The slot \<open>g\<close> holds the string \<open>str\<close> and no named slot before it does: then
  \<^verbatim>\<open>group_lookup\<close> of \<open>str\<close> finds \<open>g\<close>.
\<close>

definition name_bound :: "nat \<Rightarrow> nat \<Rightarrow> char list \<Rightarrow> 'm sched_t \<Rightarrow> bool" where
  "name_bound N g str s \<longleftrightarrow>
     names_terminated N s \<and> str \<noteq> [] \<and> nat ODP_SCHED_GROUP_NAMED \<le> g \<and>
     g < length (sched_grp s) \<and> c_str (grp_name (sched_grp s ! g)) = str \<and>
     list_all (\<lambda>j. c_str (grp_name (sched_grp s ! j)) \<noteq> str) [nat ODP_SCHED_GROUP_NAMED ..< g]"

subsection \<open>Events, source queues and lane queues\<close>

text \<open>
  The queue implementation and the buffer header are outside this file; what the
  scheduler uses of them is modelled from the spec's data model and its table of
  substrate contracts.
\<close>

text \<open>
  Modelled from the spec: the buffer header \<^verbatim>\<open>odp_buffer_hdr_t\<close> of an event, of which
  the scheduler reads the handle and, for an event of an ordered queue, the assigned
  \<open>order\<close> number and the \<open>sync\<close> numbers, one per ordered lock.
\<close>

record odp_buffer_hdr_t =
  buf_handle :: nat
  buf_order :: "64 word"
  buf_sync :: "64 word list"

text \<open>
  Modelled from the spec: the synchronization class of a queue (parallel, atomic,
  ordered).
\<close>

datatype sched_sync = SYNC_NONE | SYNC_ATOMIC | SYNC_ORDERED

text \<open>
  Modelled from the spec: the queue entry \<^verbatim>\<open>queue_entry_t\<close>, of which the scheduler
  uses the handle, the scheduling parameters (priority, group, lock count,
  synchronization class), whether the queue was destroyed, the events it holds and
  the counters \<open>sync_out\<close>; \<open>qe_finalized\<close> records the call of the finalize hook.
\<close>

record queue_entry_t =
  qe_handle :: nat
  qe_prio :: nat
  qe_group :: int
  qe_lock_count :: nat
  qe_sync :: sched_sync
  qe_destroyed :: bool
  qe_finalized :: bool
  qe_events :: "odp_buffer_hdr_t list"
  qe_sync_out :: "64 word list"

text \<open>
  \<^verbatim>\<open>sched_cmd_t\<close>: the command a token carries. A token is a pool buffer that holds
  one command; the model identifies the event, its buffer and the command in it. A
  queue entry pointer is the entry's index in the queue table; a packet input is its
  handle, its entry and its priority.
\<close>

datatype sched_cmd_t = SCHED_CMD_DEQUEUE nat | SCHED_CMD_POLL_PKTIN nat nat nat

text \<open>
  Modelled from the spec: a lane is a queue of command tokens with room for
  \<open>lane_size\<close> of them (the spec provisions one slot per attached source).
\<close>

record lane_t =
  lane_size :: nat
  lane_events :: "sched_cmd_t list"

subsection \<open>The thread local context \<^verbatim>\<open>sched_local_t\<close>\<close>

text \<open>
  The fields of \<^verbatim>\<open>sched_local\<close>, prefixed with \<open>sl_\<close>. \<open>sl_buf_hdr\<close> holds the
  headers that the slots of \<^verbatim>\<open>buf_hdr[]\<close> point to, from slot 0, as far as slots have
  been written.
\<close>

record sched_local_t =
  sl_pri_queue :: "nat option"
  sl_cmd_ev :: "sched_cmd_t option"
  sl_buf_hdr :: "odp_buffer_hdr_t list"
  sl_qe :: "nat option"
  sl_origin_qe :: "nat option"
  sl_order :: "64 word"
  sl_sync :: "64 word list"
  sl_pool :: nat
  sl_enq_called :: int
  sl_num :: int
  sl_index :: int
  sl_pause :: int
  sl_ignore_ordered_context :: int

text \<open>
  \<^verbatim>\<open>sched_local_init\<close>: everything zero, no atomic context. \<open>K\<close> is
  \<^verbatim>\<open>ODP_CONFIG_MAX_ORDERED_LOCKS_PER_QUEUE\<close>.
\<close>

definition sched_local_init :: "nat \<Rightarrow> sched_local_t" where
  "sched_local_init K =
     \<lparr> sl_pri_queue = None, sl_cmd_ev = None, sl_buf_hdr = [], sl_qe = None,
       sl_origin_qe = None, sl_order = 0, sl_sync = replicate K 0, sl_pool = 0,
       sl_enq_called = 0, sl_num = 0, sl_index = 0, sl_pause = 0,
       sl_ignore_ordered_context = 0 \<rparr>"

subsection \<open>The state a scheduling call works on\<close>

text \<open>
  The shared scheduler context, the calling thread's local context, the lane queues
  by handle, the queue table, and the cycle counter: \<open>cycle_src k\<close> is what the
  \<open>k\<close>-th call of \<^verbatim>\<open>odp_time_cycles\<close> returns.
\<close>

record 'm world =
  sched :: "'m sched_t"
  sched_local :: sched_local_t
  lanes :: "nat \<Rightarrow> lane_t"
  queue_tbl :: "nat \<Rightarrow> queue_entry_t"
  cycle_src :: "nat \<Rightarrow> 64 word"
  cycle_reads :: nat

text \<open>
  What the file takes from the rest of the platform and does not define: the packet
  input driver's poll (its result and its effect on the state), the ordering
  subsystem's \<^verbatim>\<open>release_order\<close> (its result code and its effect), the difference of
  two cycle counts, what the other threads do to the shared state while this thread
  executes \<^verbatim>\<open>odp_spin\<close>, the two sentinel values of \<open>wait\<close>, and whether
  \<^verbatim>\<open>ODP_ASSERT\<close> is compiled in.
\<close>

record 'm platform =
  pktin_poll :: "nat \<Rightarrow> 'm world \<Rightarrow> int \<times> 'm world"
  release_order :: "nat \<Rightarrow> 64 word \<Rightarrow> nat \<Rightarrow> int \<Rightarrow> 'm world \<Rightarrow> int \<times> 'm world"
  odp_time_diff_cycles :: "64 word \<Rightarrow> 64 word \<Rightarrow> 64 word"
  odp_spin :: "'m world \<Rightarrow> 'm world"
  ODP_SCHED_WAIT :: "64 word"
  ODP_SCHED_NO_WAIT :: "64 word"
  ODP_DEBUG :: bool

text \<open>The result of a function that can end in \<^verbatim>\<open>ODP_ABORT\<close>.\<close>

datatype 'a result = Ok 'a | Abort

text \<open>
  Modelled from the spec: \<^verbatim>\<open>odp_queue_enq(q, ev)\<close> on a lane enqueues the event at the
  tail, or returns an error (\<open>None\<close>) when the lane has no room.
\<close>

definition odp_queue_enq :: "nat \<Rightarrow> sched_cmd_t \<Rightarrow> 'm world \<Rightarrow> 'm world option" where
  "odp_queue_enq q ev w =
     (let l = lanes w q
      in if length (lane_events l) < lane_size l
         then Some (w\<lparr> lanes := (lanes w)(q := l\<lparr> lane_events := lane_events l @ [ev] \<rparr>) \<rparr>)
         else None)"

text \<open>
  Modelled from the spec: \<^verbatim>\<open>odp_queue_deq(q)\<close> on a lane dequeues the event at the
  head, or returns \<^verbatim>\<open>ODP_EVENT_INVALID\<close> (\<open>None\<close>) when the lane is empty.
\<close>

definition odp_queue_deq :: "nat \<Rightarrow> 'm world \<Rightarrow> sched_cmd_t option \<times> 'm world" where
  "odp_queue_deq q w =
     (case lane_events (lanes w q) of
        [] \<Rightarrow> (None, w)
      | ev # evs \<Rightarrow> (Some ev, w\<lparr> lanes := (lanes w)(q := (lanes w q)\<lparr> lane_events := evs \<rparr>) \<rparr>))"

text \<open>
  Modelled from the spec: \<^verbatim>\<open>queue_deq_multi(qe, buf_hdr, num)\<close> dequeues up to \<open>num\<close>
  events and returns their count, 0 if the queue is empty, a negative value if it was
  destroyed. The result is the count, the array \<^verbatim>\<open>buf_hdr\<close> with the dequeued headers
  in its first slots, and the state.
\<close>

definition queue_deq_multi ::
  "nat \<Rightarrow> odp_buffer_hdr_t list \<Rightarrow> nat \<Rightarrow> 'm world \<Rightarrow> int \<times> odp_buffer_hdr_t list \<times> 'm world" where
  "queue_deq_multi qe hdrs n w =
     (let q = queue_tbl w qe
      in if qe_destroyed q then (- 1, hdrs, w)
         else let taken = take n (qe_events q)
              in (int (length taken), taken @ drop (length taken) hdrs,
                  w\<lparr> queue_tbl := (queue_tbl w)(qe := q\<lparr> qe_events := drop n (qe_events q) \<rparr>) \<rparr>))"

text \<open>
  Modelled from the spec: \<^verbatim>\<open>queue_destroy_finalize(qe)\<close>, the finalize hook of a
  destroyed queue.
\<close>

definition queue_destroy_finalize :: "nat \<Rightarrow> 'm world \<Rightarrow> 'm world" where
  "queue_destroy_finalize qe w =
     w\<lparr> queue_tbl := (queue_tbl w)(qe := (queue_tbl w qe)\<lparr> qe_finalized := True \<rparr>) \<rparr>"

text \<open>Modelled from the spec: \<^verbatim>\<open>queue_is_ordered(qe)\<close>, the class is ordered.\<close>

definition queue_is_ordered :: "nat \<Rightarrow> 'm world \<Rightarrow> bool" where
  "queue_is_ordered qe w \<longleftrightarrow> qe_sync (queue_tbl w qe) = SYNC_ORDERED"

text \<open>Modelled from the spec: \<^verbatim>\<open>queue_is_atomic(qe)\<close>, the class is atomic.\<close>

definition queue_is_atomic :: "nat \<Rightarrow> 'm world \<Rightarrow> bool" where
  "queue_is_atomic qe w \<longleftrightarrow> qe_sync (queue_tbl w qe) = SYNC_ATOMIC"

text \<open>Modelled from the spec: \<^verbatim>\<open>queue_handle(qe)\<close>, the handle of the entry.\<close>

definition queue_handle :: "nat \<Rightarrow> 'm world \<Rightarrow> nat" where
  "queue_handle qe w = qe_handle (queue_tbl w qe)"

text \<open>
  Modelled from the spec: \<^verbatim>\<open>odp_time_cycles()\<close> reads the cycle counter; the reading
  is the next value of \<open>cycle_src\<close>.
\<close>

definition odp_time_cycles :: "'m world \<Rightarrow> 64 word \<times> 'm world" where
  "odp_time_cycles w = (cycle_src w (cycle_reads w), w\<lparr> cycle_reads := cycle_reads w + 1 \<rparr>)"

subsection \<open>Releasing the atomic and the ordered context\<close>

text \<open>
  \<^verbatim>\<open>odp_schedule_release_atomic\<close>. With an atomic context and no cached events, the
  token goes back to its lane; a failing enqueue is \<^verbatim>\<open>ODP_ABORT\<close>. The token of an
  atomic context is a valid event; \<^verbatim>\<open>ODP_EVENT_INVALID\<close> cannot be enqueued.
\<close>

definition odp_schedule_release_atomic :: "'m world \<Rightarrow> 'm world result" where
  "odp_schedule_release_atomic w =
     (if sl_pri_queue (sched_local w) \<noteq> None \<and> sl_num (sched_local w) = 0
      then (case (sl_pri_queue (sched_local w), sl_cmd_ev (sched_local w)) of
              (Some q, Some ev) \<Rightarrow>
                (case odp_queue_enq q ev w of
                   None \<Rightarrow> Abort
                 | Some w' \<Rightarrow> Ok (w'\<lparr> sched_local := (sched_local w')\<lparr> sl_pri_queue := None \<rparr> \<rparr>))
            | _ \<Rightarrow> Abort)
      else Ok w)"

text \<open>
  \<^verbatim>\<open>odp_schedule_release_ordered\<close>: \<^verbatim>\<open>origin_qe\<close> is set to \<^verbatim>\<open>NULL\<close> only when
  \<^verbatim>\<open>release_order\<close> returns 0.
\<close>

definition odp_schedule_release_ordered :: "'m platform \<Rightarrow> 'm world \<Rightarrow> 'm world" where
  "odp_schedule_release_ordered X w =
     (case sl_origin_qe (sched_local w) of
        None \<Rightarrow> w
      | Some origin \<Rightarrow>
          (let (rc, w') = release_order X origin (sl_order (sched_local w))
                            (sl_pool (sched_local w)) (sl_enq_called (sched_local w)) w
           in if rc = 0 then w'\<lparr> sched_local := (sched_local w')\<lparr> sl_origin_qe := None \<rparr> \<rparr>
              else w'))"

text \<open>
  \<^verbatim>\<open>odp_schedule_release_context\<close>: with an ordered context it calls
  \<^verbatim>\<open>release_order\<close>, drops the result code and sets \<^verbatim>\<open>origin_qe\<close> to \<^verbatim>\<open>NULL\<close>;
  otherwise it releases the atomic context.
\<close>

definition odp_schedule_release_context :: "'m platform \<Rightarrow> 'm world \<Rightarrow> 'm world result" where
  "odp_schedule_release_context X w =
     (case sl_origin_qe (sched_local w) of
        Some origin \<Rightarrow>
          (let (rc, w') = release_order X origin (sl_order (sched_local w))
                            (sl_pool (sched_local w)) (sl_enq_called (sched_local w)) w
           in Ok (w'\<lparr> sched_local := (sched_local w')\<lparr> sl_origin_qe := None \<rparr> \<rparr>))
      | None \<Rightarrow> odp_schedule_release_atomic w)"

subsection \<open>The dispatcher\<close>

text \<open>
  \<^verbatim>\<open>copy_events(out_ev, max)\<close>: the loop runs while \<^verbatim>\<open>sched_local.num\<close> and \<^verbatim>\<open>max\<close> are
  both non-zero. The result is the list of events written to \<^verbatim>\<open>out_ev[0..]\<close> (the
  return value is its length) and the local context.
\<close>

fun copy_events :: "nat \<Rightarrow> sched_local_t \<Rightarrow> nat list \<times> sched_local_t" where
  "copy_events 0 l = ([], l)"
| "copy_events (Suc n) l =
     (if sl_num l = 0 then ([], l)
      else let hdr = sl_buf_hdr l ! nat (sl_index l);
               (evs, l') = copy_events n (l\<lparr> sl_index := sl_index l + 1, sl_num := sl_num l - 1 \<rparr>)
           in (buf_handle hdr # evs, l'))"

text \<open>
  What one pass over a lane, or the whole call, ends with: go on with the next lane
  (\<open>Continue\<close>, with the current value of \<^verbatim>\<open>max_deq\<close>), return (\<open>Return\<close>: the return
  value, the events written to \<^verbatim>\<open>out_ev\<close>, what was written to \<^verbatim>\<open>*out_queue\<close>, the
  state), or \<^verbatim>\<open>ODP_ABORT\<close>.
\<close>

datatype 'm outcome =
  Continue nat "'m world" | Return int "nat list" "nat option" "'m world" | Aborted

text \<open>
  The loop that caches the \<open>sync\<close> numbers of the first event:
  \<^verbatim>\<open>for (k = 0; k < lock_count; k++) sched_local.sync[k] = buf_hdr[0]->sync[k]\<close>.
\<close>

definition cache_sync :: "nat \<Rightarrow> 64 word list \<Rightarrow> 64 word list \<Rightarrow> 64 word list" where
  "cache_sync lock_count hdr_sync local_sync =
     foldl (\<lambda>s k. s[k := hdr_sync ! k]) local_sync [0..<lock_count]"

text \<open>
  The second half of the body of the inner loop of \<^verbatim>\<open>schedule\<close>, from the comment
  "For ordered queues we want consecutive events to be dispatched to separate
  threads" to \<^verbatim>\<open>return ret\<close>: the drain of the source queue \<open>qe\<close> whose token was taken
  from the lane queue \<open>pri_q\<close>, and what follows it. \<open>oq\<close> says whether \<^verbatim>\<open>out_queue\<close> is
  non-null.
\<close>

definition schedule_dequeue ::
  "bool \<Rightarrow> nat \<Rightarrow> nat \<Rightarrow> nat \<Rightarrow> nat \<Rightarrow> 'm world \<Rightarrow> 'm outcome" where
  "schedule_dequeue oq max_num pri_q qe max_deq w1 =
     (let max_deq = (if queue_is_ordered qe w1 then 1 else max_deq);
          (num, hdrs, w2) = queue_deq_multi qe (sl_buf_hdr (sched_local w1)) max_deq w1;
          w2 = w2\<lparr> sched_local := (sched_local w2)\<lparr> sl_buf_hdr := hdrs \<rparr> \<rparr>
      in if num < 0 then Continue max_deq (queue_destroy_finalize qe w2)
         else if num = 0 then Continue max_deq w2
         else
           let (evs, l3) = copy_events max_num
                             ((sched_local w2)\<lparr> sl_num := num, sl_index := 0,
                                                 sl_qe := Some qe \<rparr>);
               w3 = w2\<lparr> sched_local := l3 \<rparr>;
               out = (if oq then Some (queue_handle qe w3) else None)
           in if queue_is_ordered qe w3
              then (case odp_queue_enq pri_q (SCHED_CMD_DEQUEUE qe) w3 of
                      None \<Rightarrow> Aborted
                    | Some w4 \<Rightarrow>
                        Return (int (length evs)) evs out
                          (w4\<lparr> sched_local := (sched_local w4)
                                \<lparr> sl_origin_qe := Some qe,
                                  sl_order := buf_order (sl_buf_hdr (sched_local w4) ! 0),
                                  sl_sync := cache_sync (qe_lock_count (queue_tbl w4 qe))
                                               (buf_sync (sl_buf_hdr (sched_local w4) ! 0))
                                               (sl_sync (sched_local w4)),
                                  sl_enq_called := 0 \<rparr> \<rparr>))
              else if queue_is_atomic qe w3
              then Return (int (length evs)) evs out
                     (w3\<lparr> sched_local := (sched_local w3)
                           \<lparr> sl_pri_queue := Some pri_q,
                             sl_cmd_ev := Some (SCHED_CMD_DEQUEUE qe) \<rparr> \<rparr>)
              else (case odp_queue_enq pri_q (SCHED_CMD_DEQUEUE qe) w3 of
                      None \<Rightarrow> Aborted
                    | Some w4 \<Rightarrow> Return (int (length evs)) evs out w4))"

text \<open>
  The body of the inner loop of \<^verbatim>\<open>schedule\<close> for lane \<open>ln\<close> of priority \<open>i\<close>: the test
  of the mask bit, the dequeue of a token from the lane, the packet input poll, the
  group check, and then \<open>schedule_dequeue\<close>. \<open>thr\<close> is \<^verbatim>\<open>odp_thread_id()\<close>.
\<close>

definition schedule_lane ::
  "('w::len) word platform \<Rightarrow> nat \<Rightarrow> bool \<Rightarrow> nat \<Rightarrow> nat \<Rightarrow> nat \<Rightarrow> nat \<Rightarrow> 'w word world
     \<Rightarrow> 'w word outcome" where
  "schedule_lane X thr oq max_num i ln max_deq w =
     (if \<not> mask_bit_set (pri_mask (sched w) ! i) ln then Continue max_deq w
      else
        let pri_q = pri_queue (sched w) ! i ! ln in
        case odp_queue_deq pri_q w of
          (None, w1) \<Rightarrow> Continue max_deq w1
        | (Some (SCHED_CMD_POLL_PKTIN pktio pe prio), w1) \<Rightarrow>
            (let (stop, w2) = pktin_poll X pe w1
             in if stop \<noteq> 0
                then Continue max_deq (w2\<lparr> sched := pri_clr_pktio pktio prio (sched w2) \<rparr>)
                else (case odp_queue_enq pri_q (SCHED_CMD_POLL_PKTIN pktio pe prio) w2 of
                        None \<Rightarrow> Aborted
                      | Some w3 \<Rightarrow> Continue max_deq w3))
        | (Some (SCHED_CMD_DEQUEUE qe), w1) \<Rightarrow>
            (let qe_grp = qe_group (queue_tbl w1 qe)
             in if qe_grp > ODP_SCHED_GROUP_ALL \<and>
                   \<not> odp_thrmask_isset (grp_mask (sched_grp (sched w1) ! nat qe_grp)) thr
                then (case odp_queue_enq pri_q (SCHED_CMD_DEQUEUE qe) w1 of
                        None \<Rightarrow> Aborted
                      | Some w2 \<Rightarrow> Continue max_deq w2)
                else schedule_dequeue oq max_num pri_q qe max_deq w1))"

text \<open>
  The inner loop \<^verbatim>\<open>for (j = 0; j < QUEUES_PER_PRIO; j++, id++)\<close>: \<open>n\<close> lanes are left to
  visit, \<open>ln\<close> is \<^verbatim>\<open>id\<close> before the wrap \<^verbatim>\<open>if (id >= QUEUES_PER_PRIO) id = 0\<close>.
\<close>

fun schedule_lanes ::
  "('w::len) word platform \<Rightarrow> nat \<Rightarrow> bool \<Rightarrow> nat \<Rightarrow> nat \<Rightarrow> nat \<Rightarrow> nat \<Rightarrow> nat \<Rightarrow> 'w word world
     \<Rightarrow> 'w word outcome" where
  "schedule_lanes X thr oq max_num i 0 ln max_deq w = Continue max_deq w"
| "schedule_lanes X thr oq max_num i (Suc n) ln max_deq w =
     (let ln' = (if ln \<ge> QUEUES_PER_PRIO then 0 else ln)
      in case schedule_lane X thr oq max_num i ln' max_deq w of
           Continue max_deq' w' \<Rightarrow> schedule_lanes X thr oq max_num i n (ln' + 1) max_deq' w'
         | Return ret evs out w' \<Rightarrow> Return ret evs out w'
         | Aborted \<Rightarrow> Aborted)"

text \<open>
  The outer loop \<^verbatim>\<open>for (i = 0; i < ODP_CONFIG_SCHED_PRIOS; i++)\<close>: \<open>n\<close> priorities are
  left, \<open>i\<close> is the current one. After the last priority the call returns 0.
\<close>

fun schedule_prios ::
  "('w::len) word platform \<Rightarrow> nat \<Rightarrow> bool \<Rightarrow> nat \<Rightarrow> nat \<Rightarrow> nat \<Rightarrow> nat \<Rightarrow> 'w word world
     \<Rightarrow> 'w word outcome" where
  "schedule_prios X thr oq max_num 0 i max_deq w = Return 0 [] None w"
| "schedule_prios X thr oq max_num (Suc n) i max_deq w =
     (if pri_mask (sched w) ! i = 0 then schedule_prios X thr oq max_num n (i + 1) max_deq w
      else case schedule_lanes X thr oq max_num i QUEUES_PER_PRIO
                  (thr AND (QUEUES_PER_PRIO - 1)) max_deq w of
             Continue max_deq' w' \<Rightarrow> schedule_prios X thr oq max_num n (i + 1) max_deq' w'
           | Return ret evs out w' \<Rightarrow> Return ret evs out w'
           | Aborted \<Rightarrow> Aborted)"

text \<open>
  \<^verbatim>\<open>schedule(out_queue, out_ev, max_num, max_deq)\<close>. With cached events it copies them
  out and returns; \<^verbatim>\<open>queue_handle(sched_local.qe)\<close> reads through the pointer, which
  is set whenever events are cached (a null pointer there ends the program). Otherwise
  it releases the context, returns 0 when paused, and walks the priorities.
\<close>

definition schedule ::
  "('w::len) word platform \<Rightarrow> nat \<Rightarrow> bool \<Rightarrow> nat \<Rightarrow> nat \<Rightarrow> 'w word world \<Rightarrow> 'w word outcome" where
  "schedule X thr oq max_num max_deq w =
     (if sl_num (sched_local w) \<noteq> 0
      then (let (evs, l') = copy_events max_num (sched_local w)
            in if oq
               then (case sl_qe (sched_local w) of
                       None \<Rightarrow> Aborted
                     | Some qe \<Rightarrow>
                         Return (int (length evs)) evs (Some (queue_handle qe w))
                           (w\<lparr> sched_local := l' \<rparr>))
               else Return (int (length evs)) evs None (w\<lparr> sched_local := l' \<rparr>))
      else (case odp_schedule_release_context X w of
              Abort \<Rightarrow> Aborted
            | Ok w1 \<Rightarrow>
                if sl_pause (sched_local w1) \<noteq> 0 then Return 0 [] None w1
                else schedule_prios X thr oq max_num (ODP_CONFIG_SCHED_PRIOS (sched w1)) 0
                       max_deq w1))"

text \<open>
  \<^verbatim>\<open>schedule_loop\<close>. The \<^verbatim>\<open>while (1)\<close> loop may spin for ever, so the model counts
  the attempts: \<open>None\<close> is a loop that is still running after \<open>n\<close> calls of
  \<^verbatim>\<open>schedule\<close>. \<open>start_cycle\<close> is the local variable of that name.
\<close>

fun schedule_loop_from ::
  "nat \<Rightarrow> ('w::len) word platform \<Rightarrow> nat \<Rightarrow> bool \<Rightarrow> 64 word \<Rightarrow> nat \<Rightarrow> nat \<Rightarrow> 64 word
     \<Rightarrow> 'w word world \<Rightarrow> 'w word outcome option" where
  "schedule_loop_from 0 X thr oq wait max_num max_deq start_cycle w = None"
| "schedule_loop_from (Suc n) X thr oq wait max_num max_deq start_cycle w =
     (case schedule X thr oq max_num max_deq w of
        Aborted \<Rightarrow> Some Aborted
      | Continue md w' \<Rightarrow> Some (Continue md w')
      | Return ret evs out w' \<Rightarrow>
          if ret \<noteq> 0 then Some (Return ret evs out w')
          else if wait = ODP_SCHED_WAIT X
          then schedule_loop_from n X thr oq wait max_num max_deq start_cycle w'
          else if wait = ODP_SCHED_NO_WAIT X then Some (Return ret evs out w')
          else if start_cycle = 0
          then (let (c, w'') = odp_time_cycles w'
                in schedule_loop_from n X thr oq wait max_num max_deq c w'')
          else (let (cycle, w'') = odp_time_cycles w';
                    diff = odp_time_diff_cycles X start_cycle cycle
                in if wait < diff then Some (Return ret evs out w'')
                   else schedule_loop_from n X thr oq wait max_num max_deq start_cycle w''))"

definition schedule_loop ::
  "nat \<Rightarrow> ('w::len) word platform \<Rightarrow> nat \<Rightarrow> bool \<Rightarrow> 64 word \<Rightarrow> nat \<Rightarrow> nat
     \<Rightarrow> 'w word world \<Rightarrow> 'w word outcome option" where
  "schedule_loop n X thr oq wait max_num max_deq w =
     schedule_loop_from n X thr oq wait max_num max_deq 0 w"

text \<open>\<^verbatim>\<open>odp_schedule_multi\<close>, \<^verbatim>\<open>odp_schedule_pause\<close> and \<^verbatim>\<open>odp_schedule_resume\<close>.\<close>

definition odp_schedule_multi ::
  "nat \<Rightarrow> ('w::len) word platform \<Rightarrow> nat \<Rightarrow> bool \<Rightarrow> 64 word \<Rightarrow> nat
     \<Rightarrow> 'w word world \<Rightarrow> 'w word outcome option" where
  "odp_schedule_multi n X thr oq wait num w = schedule_loop n X thr oq wait num MAX_DEQ w"

definition odp_schedule_pause :: "'m world \<Rightarrow> 'm world" where
  "odp_schedule_pause w = w\<lparr> sched_local := (sched_local w)\<lparr> sl_pause := 1 \<rparr> \<rparr>"

definition odp_schedule_resume :: "'m world \<Rightarrow> 'm world" where
  "odp_schedule_resume w = w\<lparr> sched_local := (sched_local w)\<lparr> sl_pause := 0 \<rparr> \<rparr>"

subsection \<open>Ordered locks\<close>

text \<open>
  Modelled from the spec: \<^verbatim>\<open>odp_atomic_load_u64(&origin_qe->s.sync_out[lock_index])\<close>,
  the current value of the counter.
\<close>

definition sync_out_load :: "nat \<Rightarrow> nat \<Rightarrow> 'm world \<Rightarrow> 64 word" where
  "sync_out_load qe lock_index w = qe_sync_out (queue_tbl w qe) ! lock_index"

text \<open>
  The wait loop of \<^verbatim>\<open>odp_schedule_order_lock\<close>: load, compare, and while the values
  differ call \<^verbatim>\<open>odp_spin\<close> (the other threads run) and load again. \<open>None\<close> is a loop
  still spinning after \<open>n\<close> loads.
\<close>

fun order_lock_wait ::
  "nat \<Rightarrow> 'm platform \<Rightarrow> nat \<Rightarrow> nat \<Rightarrow> 64 word \<Rightarrow> 'm world \<Rightarrow> 'm world option" where
  "order_lock_wait 0 X qe lock_index sync w = None"
| "order_lock_wait (Suc n) X qe lock_index sync w =
     (if sync \<noteq> sync_out_load qe lock_index w
      then order_lock_wait n X qe lock_index sync (odp_spin X w)
      else Some w)"

text \<open>
  \<^verbatim>\<open>odp_schedule_order_lock\<close>. Modelled from the spec: \<^verbatim>\<open>ODP_ASSERT\<close> is declared
  outside this file; a failing assertion is fatal where assertions are compiled in.
\<close>

definition odp_schedule_order_lock ::
  "nat \<Rightarrow> 'm platform \<Rightarrow> nat \<Rightarrow> 'm world \<Rightarrow> 'm world result option" where
  "odp_schedule_order_lock n X lock_index w =
     (case sl_origin_qe (sched_local w) of
        None \<Rightarrow> Some (Ok w)
      | Some origin \<Rightarrow>
          if lock_index \<ge> qe_lock_count (queue_tbl w origin) then Some (Ok w)
          else let sync = sl_sync (sched_local w) ! lock_index;
                   sync_out = sync_out_load origin lock_index w
               in if ODP_DEBUG X \<and> \<not> sync \<ge> sync_out then Some Abort
                  else map_option Ok (order_lock_wait n X origin lock_index sync w))"

text \<open>
  \<^verbatim>\<open>odp_schedule_order_unlock\<close>: \<^verbatim>\<open>odp_atomic_fetch_inc_u64\<close> adds one to the 64-bit
  counter. The assertion is treated as in \<^verbatim>\<open>odp_schedule_order_lock\<close>.
\<close>

definition odp_schedule_order_unlock :: "'m platform \<Rightarrow> nat \<Rightarrow> 'm world \<Rightarrow> 'm world result" where
  "odp_schedule_order_unlock X lock_index w =
     (case sl_origin_qe (sched_local w) of
        None \<Rightarrow> Ok w
      | Some origin \<Rightarrow>
          if lock_index \<ge> qe_lock_count (queue_tbl w origin) then Ok w
          else if ODP_DEBUG X \<and>
                  sl_sync (sched_local w) ! lock_index \<noteq> sync_out_load origin lock_index w
          then Abort
          else Ok (w\<lparr> queue_tbl := (queue_tbl w)
                       (origin := (queue_tbl w origin)
                          \<lparr> qe_sync_out := (qe_sync_out (queue_tbl w origin))
                              [lock_index := sync_out_load origin lock_index w + 1] \<rparr>) \<rparr>))"

text \<open>
  The thread \<open>thr\<close> may be served by the queue whose events its cache holds: the
  queue's group is not above ALL, or the group's mask has the thread's bit. This is
  the negation of the dispatcher's group check, read on the cached source queue.
\<close>

definition served_eligible :: "nat \<Rightarrow> ('w::len) word world \<Rightarrow> bool" where
  "served_eligible thr w \<longleftrightarrow>
     (case sl_qe (sched_local w) of
        None \<Rightarrow> False
      | Some qe \<Rightarrow>
          \<not> (ODP_SCHED_GROUP_ALL < qe_group (queue_tbl w qe) \<and>
             \<not> odp_thrmask_isset
                 (grp_mask (sched_grp (sched w) ! nat (qe_group (queue_tbl w qe)))) thr))"

subsection \<open>Example states\<close>

text \<open>
  The group masks before any thread has joined a group, and the scheduler context that
  \<^verbatim>\<open>odp_schedule_init_global\<close> leaves with eight priorities (the spec's default),
  sixteen groups and names of 32 bytes.
\<close>

definition no_threads :: "nat \<Rightarrow> 8 word" where
  "no_threads i = 0"

definition init_sched :: "8 word sched_t" where
  "init_sched = sched_init 8 16 32 no_threads"

text \<open>
  A group table with five slots and names of eight bytes in which the first named
  slot, 3, holds the group \<open>a\<close> with thread 0 in its mask.
\<close>

definition grp_example :: "8 word sched_t" where
  "grp_example = snd (odp_schedule_group_create ''a'' 1 (sched_init 1 5 8 no_threads))"

text \<open>A group table with five slots and names of four bytes, all free.\<close>

definition short_names_sched :: "8 word sched_t" where
  "short_names_sched = sched_init 1 5 4 no_threads"

text \<open>
  A platform whose \<^verbatim>\<open>release_order\<close> fails (returns -1 and changes nothing), whose
  packet input never retires, with \<^verbatim>\<open>ODP_SCHED_WAIT\<close> the largest and
  \<^verbatim>\<open>ODP_SCHED_NO_WAIT\<close> the smallest 64-bit value.
\<close>

definition failing_platform :: "8 word platform" where
  "failing_platform =
     \<lparr> pktin_poll = (\<lambda>pe w. (0, w)),
       release_order = (\<lambda>qe ord pool enq w. (- 1, w)),
       odp_time_diff_cycles = (\<lambda>t1 t2. t2 - t1),
       odp_spin = (\<lambda>w. w),
       ODP_SCHED_WAIT = - 1,
       ODP_SCHED_NO_WAIT = 0,
       ODP_DEBUG = True \<rparr>"

text \<open>
  A parallel queue in group ALL without events, and the state after
  \<^verbatim>\<open>odp_schedule_init_global\<close> and \<^verbatim>\<open>odp_schedule_init_local\<close> with two priorities,
  five groups, lanes of eight slots and a cycle counter that reads \<open>100 * k\<close> at its
  \<open>k\<close>-th reading.
\<close>

definition empty_queue :: queue_entry_t where
  "empty_queue =
     \<lparr> qe_handle = 0, qe_prio = 0, qe_group = ODP_SCHED_GROUP_ALL, qe_lock_count = 0,
       qe_sync = SYNC_NONE, qe_destroyed = False, qe_finalized = False, qe_events = [],
       qe_sync_out = [0, 0] \<rparr>"

definition idle_world :: "8 word world" where
  "idle_world =
     \<lparr> sched = sched_init 2 5 8 no_threads,
       sched_local = sched_local_init 2,
       lanes = (\<lambda>_. \<lparr> lane_size = 8, lane_events = [] \<rparr>),
       queue_tbl = (\<lambda>_. empty_queue),
       cycle_src = (\<lambda>k. 100 * of_nat k),
       cycle_reads = 0 \<rparr>"

text \<open>The idle state with an ordered context of queue 7 held.\<close>

definition ordered_held_world :: "8 word world" where
  "ordered_held_world =
     idle_world\<lparr> sched_local := (sched_local idle_world)\<lparr> sl_origin_qe := Some 7 \<rparr> \<rparr>"

text \<open>
  The idle state with two cached events (of three headers, the first already served)
  of queue 7, held under the atomic context of lane 2.
\<close>

definition ev_hdr :: "nat \<Rightarrow> odp_buffer_hdr_t" where
  "ev_hdr h = \<lparr> buf_handle = h, buf_order = 0, buf_sync = [0, 0] \<rparr>"

definition cached_world :: "8 word world" where
  "cached_world =
     idle_world\<lparr> sched_local := (sched_local idle_world)
       \<lparr> sl_pri_queue := Some 2, sl_cmd_ev := Some (SCHED_CMD_DEQUEUE 7),
         sl_buf_hdr := [ev_hdr 10, ev_hdr 11, ev_hdr 12], sl_qe := Some 7,
         sl_num := 2, sl_index := 1 \<rparr> \<rparr>"

text \<open>
  Group eligibility. Group 3, \<open>a\<close>, has thread 0 in its mask. Queue 5 is parallel, has
  priority 0 and group 3, holds the events 11 and 12, and is attached: its lane is
  lane 1 of priority 0 (queue handle 2), where its token waits. \<open>grp_world_served\<close> is
  the state after thread 0 has been given event 11 (event 12 is cached), and
  \<open>grp_world_left\<close> that state after \<^verbatim>\<open>group_leave\<close> has taken thread 0 out of
  group 3.
\<close>

definition grp_queue :: queue_entry_t where
  "grp_queue = empty_queue\<lparr> qe_handle := 5, qe_group := 3,
                              qe_events := [ev_hdr 11, ev_hdr 12] \<rparr>"

definition grp_world :: "8 word world" where
  "grp_world =
     idle_world\<lparr> sched := snd (pri_set_queue 5 0
                       (snd (odp_schedule_group_create ''a'' 1 (sched idle_world)))),
                 lanes := (lanes idle_world)
                   (2 := \<lparr> lane_size = 8, lane_events = [SCHED_CMD_DEQUEUE 5] \<rparr>),
                 queue_tbl := (queue_tbl idle_world)(5 := grp_queue) \<rparr>"

definition grp_world_served :: "8 word world" where
  "grp_world_served =
     grp_world\<lparr> sched_local := (sched_local grp_world)
                  \<lparr> sl_buf_hdr := [ev_hdr 11, ev_hdr 12], sl_qe := Some 5,
                    sl_num := 1, sl_index := 1 \<rparr>,
                queue_tbl := (queue_tbl grp_world)(5 := grp_queue\<lparr> qe_events := [] \<rparr>) \<rparr>"

definition grp_world_left :: "8 word world" where
  "grp_world_left =
     grp_world_served\<lparr> sched := snd (odp_schedule_group_leave 3 1 (sched grp_world_served)) \<rparr>"

text \<open>
  An ordered queue. Queue 6 is ordered with one lock, has priority 0 and group ALL,
  holds the events 21 and 22 (order and sync numbers 0 and 1), and is attached: its
  token waits on lane 2 of priority 0 (queue handle 3). \<open>ord_world_served\<close> is the
  state after a thread has been given event 21 under the ordered context of queue 6.
\<close>

definition ord_queue :: queue_entry_t where
  "ord_queue =
     empty_queue\<lparr> qe_handle := 6, qe_lock_count := 1, qe_sync := SYNC_ORDERED,
                   qe_events := [\<lparr> buf_handle = 21, buf_order = 0, buf_sync = [0, 0] \<rparr>,
                                 \<lparr> buf_handle = 22, buf_order = 1, buf_sync = [1, 0] \<rparr>] \<rparr>"

definition ord_world :: "8 word world" where
  "ord_world =
     idle_world\<lparr> sched := snd (pri_set_queue 6 0 (sched idle_world)),
                 lanes := (lanes idle_world)
                   (3 := \<lparr> lane_size = 8, lane_events = [SCHED_CMD_DEQUEUE 6] \<rparr>),
                 queue_tbl := (queue_tbl idle_world)(6 := ord_queue) \<rparr>"

definition ord_world_served :: "8 word world" where
  "ord_world_served =
     ord_world\<lparr> sched_local := (sched_local ord_world)
                  \<lparr> sl_buf_hdr := [\<lparr> buf_handle = 21, buf_order = 0, buf_sync = [0, 0] \<rparr>],
                    sl_qe := Some 6, sl_origin_qe := Some 6, sl_index := 1 \<rparr>,
                queue_tbl := (queue_tbl ord_world)
                  (6 := ord_queue\<lparr> qe_events :=
                          [\<lparr> buf_handle = 22, buf_order = 1, buf_sync = [1, 0] \<rparr>] \<rparr>) \<rparr>"

text \<open>
  Ordered locks. In \<open>lock_wait_world\<close> a thread holds the ordered context of queue 6
  for an event with sync number 1 while the counter \<open>sync_out[0]\<close> is 0; the platform
  \<open>peer_unlocks\<close> lets the thread that is ahead unlock while this one spins, which
  leads to \<open>lock_held_world\<close>, and unlocking there leads to \<open>lock_released_world\<close>.
  In \<open>wrap_world\<close> the sync number and the counter are both \<open>2^64 - 1\<close>;
  \<open>wrapped_world\<close> is that state with the counter at 0.
\<close>

definition peer_unlocks :: "8 word platform" where
  "peer_unlocks =
     failing_platform\<lparr> odp_spin := (\<lambda>w. w\<lparr> queue_tbl := (queue_tbl w)
        (6 := (queue_tbl w 6)\<lparr> qe_sync_out := (qe_sync_out (queue_tbl w 6))
                 [0 := qe_sync_out (queue_tbl w 6) ! 0 + 1] \<rparr>) \<rparr>) \<rparr>"

definition lock_wait_world :: "8 word world" where
  "lock_wait_world =
     idle_world\<lparr> sched_local := (sched_local idle_world)
                   \<lparr> sl_origin_qe := Some 6, sl_order := 1, sl_sync := [1, 0] \<rparr>,
                 queue_tbl := (queue_tbl idle_world)(6 := ord_queue) \<rparr>"

definition lock_held_world :: "8 word world" where
  "lock_held_world =
     lock_wait_world\<lparr> queue_tbl := (queue_tbl lock_wait_world)
                         (6 := ord_queue\<lparr> qe_sync_out := [1, 0] \<rparr>) \<rparr>"

definition lock_released_world :: "8 word world" where
  "lock_released_world =
     lock_wait_world\<lparr> queue_tbl := (queue_tbl lock_wait_world)
                         (6 := ord_queue\<lparr> qe_sync_out := [2, 0] \<rparr>) \<rparr>"

definition wrap_world :: "8 word world" where
  "wrap_world =
     idle_world\<lparr> sched_local := (sched_local idle_world)
                   \<lparr> sl_origin_qe := Some 6, sl_sync := [0xFFFFFFFFFFFFFFFF, 0] \<rparr>,
                 queue_tbl := (queue_tbl idle_world)
                   (6 := ord_queue\<lparr> qe_sync_out := [0xFFFFFFFFFFFFFFFF, 0] \<rparr>) \<rparr>"

definition wrapped_world :: "8 word world" where
  "wrapped_world =
     wrap_world\<lparr> queue_tbl := (queue_tbl wrap_world)(6 := ord_queue\<lparr> qe_sync_out := [0, 0] \<rparr>) \<rparr>"

text \<open>The idle state of a thread that has called \<^verbatim>\<open>odp_schedule_pause\<close>.\<close>

definition paused_world :: "8 word world" where
  "paused_world = odp_schedule_pause idle_world"

section \<open>Properties\<close>

subsection \<open>Priority fabric: mask bits and counts\<close>

lemma nth_upd: "xs[i := x] ! j = (if i = j \<and> i < length xs then x else xs ! j)"
  by (cases "i < length xs") (auto simp add: nth_list_update list_update_beyond)

lemma mask_bit_set_iff: "i < 8 \<Longrightarrow> mask_bit_set m i = bit m i"
  unfolding mask_bit_set_def
  by (simp add: and_exp_eq_0_iff_not_bit bit_simps)

lemma bit_mask_set_bit: "i < 8 \<Longrightarrow> bit (mask_set_bit m i) j = (bit m j \<or> j = i)"
  unfolding mask_set_bit_def
  by (auto simp add: bit_simps dest: bit_imp_le_length)

lemma bit_mask_clr_bit: "i < 8 \<Longrightarrow> bit (mask_clr_bit m i) j = (bit m j \<and> j \<noteq> i)"
  unfolding mask_clr_bit_def
  by (auto simp add: bit_simps dest: bit_imp_le_length)

lemma pri_consistent_iff:
  "pri_consistent s \<longleftrightarrow>
     (\<forall>p < length (pri_mask s). \<forall>i < QUEUES_PER_PRIO.
        mask_bit_set (pri_mask s ! p) i = (0 < pri_count s ! p ! i))"
  by (auto simp add: pri_consistent_def list_all_iff)

lemma fabric_sized_pri_set: "fabric_sized s \<Longrightarrow> fabric_sized (snd (pri_set i prio s))"
  by (auto simp add: fabric_sized_def pri_set_def list_all_length nth_upd)

lemma fabric_sized_pri_clr: "fabric_sized s \<Longrightarrow> fabric_sized (pri_clr i prio s)"
  by (auto simp add: fabric_sized_def pri_clr_def Let_def list_all_length nth_upd)

lemma word_succ_neq_0: "(c :: 32 word) \<noteq> - 1 \<Longrightarrow> c + 1 \<noteq> 0"
  by (simp add: eq_neg_iff_add_eq_0)

text \<open>One attach keeps mask and counts consistent unless the count wraps to zero.\<close>

lemma pri_consistent_pri_set:
  assumes "fabric_sized s" "pri_consistent s" "prio < length (pri_mask s)" "i < QUEUES_PER_PRIO"
    "pri_count s ! prio ! i \<noteq> - 1"
  shows "pri_consistent (snd (pri_set i prio s))"
  using assms
  unfolding pri_consistent_iff fabric_sized_def
  apply (clarsimp simp add: pri_set_def list_all_length nth_upd QUEUES_PER_PRIO_def
      mask_bit_set_iff bit_mask_set_bit)
  apply (auto simp add: word_succ_neq_0 word_gt_0)
  done

text \<open>One detach keeps them consistent when the count was not zero.\<close>

lemma pri_consistent_pri_clr:
  assumes "fabric_sized s" "pri_consistent s" "prio < length (pri_mask s)" "i < QUEUES_PER_PRIO"
    "pri_count s ! prio ! i \<noteq> 0"
  shows "pri_consistent (pri_clr i prio s)"
  using assms
  unfolding pri_consistent_iff fabric_sized_def
  apply (clarsimp simp add: pri_clr_def Let_def list_all_length nth_upd QUEUES_PER_PRIO_def
      mask_bit_set_iff bit_mask_clr_bit)
  apply (auto simp add: word_gt_0)
  done

lemma pri_run_balanced:
  "fabric_sized s \<Longrightarrow> pri_consistent s \<Longrightarrow> pri_balanced ops s \<Longrightarrow>
     fabric_sized (pri_run ops s) \<and> pri_consistent (pri_run ops s)"
proof (induction ops arbitrary: s)
  case Nil
  then show ?case by simp
next
  case (Cons x xs)
  show ?case
  proof (cases x)
    case (Pri_Set i prio)
    with Cons.prems have ok: "prio < length (pri_mask s)" "i < QUEUES_PER_PRIO"
      "pri_count s ! prio ! i \<noteq> - 1" "pri_balanced xs (snd (pri_set i prio s))"
      by simp_all
    have "fabric_sized (snd (pri_set i prio s))"
      using Cons.prems(1) by (rule fabric_sized_pri_set)
    moreover have "pri_consistent (snd (pri_set i prio s))"
      using Cons.prems(1,2) ok(1-3) by (rule pri_consistent_pri_set)
    ultimately show ?thesis
      using Cons.IH [of "snd (pri_set i prio s)"] ok(4) Pri_Set by simp
  next
    case (Pri_Clr i prio)
    with Cons.prems have ok: "prio < length (pri_mask s)" "i < QUEUES_PER_PRIO"
      "pri_count s ! prio ! i \<noteq> 0" "pri_balanced xs (pri_clr i prio s)"
      by simp_all
    have "fabric_sized (pri_clr i prio s)"
      using Cons.prems(1) by (rule fabric_sized_pri_clr)
    moreover have "pri_consistent (pri_clr i prio s)"
      using Cons.prems(1,2) ok(1-3) by (rule pri_consistent_pri_clr)
    ultimately show ?thesis
      using Cons.IH [of "pri_clr i prio s"] ok(4) Pri_Clr by simp
  qed
qed

lemma pri_balanced_take: "pri_balanced ops s \<Longrightarrow> pri_balanced (take n ops) s"
proof (induction ops arbitrary: s n)
  case Nil
  then show ?case by simp
next
  case (Cons x xs)
  then show ?case by (cases n; cases x) simp_all
qed

text \<open>The state that \<^verbatim>\<open>odp_schedule_init_global\<close> leaves is sized and consistent.\<close>

lemma fabric_sized_init: "fabric_sized (sched_init P G N gm)"
  by (simp add: fabric_sized_def sched_init_def list_all_length)

lemma pri_consistent_init: "pri_consistent (sched_init P G N gm)"
  by (simp add: pri_consistent_iff sched_init_def mask_bit_set_def)

text \<open>
  Claim C1, as stated: after every operation of every sequence of \<^verbatim>\<open>pri_set\<close> and
  \<^verbatim>\<open>pri_clr\<close> operations, the bit of \<open>(p, id)\<close> is set in \<open>pri_mask[p]\<close> iff
  \<open>pri_count[p][id] > 0\<close>. This fails for a detach that no attach precedes: from the
  initial state, \<^verbatim>\<open>pri_clr(0, 0)\<close> wraps the count of lane 0 of priority 0 to
  \<open>2^32 - 1\<close> and leaves its mask bit clear.
\<close>

theorem pri_clr_unattached_counterexample:
  "\<not> mask_bit_set (pri_mask (pri_run [Pri_Clr 0 0] init_sched) ! 0) 0 \<and>
   pri_count (pri_run [Pri_Clr 0 0] init_sched) ! 0 ! 0 = 0xFFFFFFFF \<and>
   0 < pri_count (pri_run [Pri_Clr 0 0] init_sched) ! 0 ! 0 \<and>
   \<not> pri_consistent (pri_run [Pri_Clr 0 0] init_sched)"
proof -
  have e: "\<not> mask_bit_set (pri_mask (pri_run [Pri_Clr 0 0] init_sched) ! 0) 0"
    "pri_count (pri_run [Pri_Clr 0 0] init_sched) ! 0 ! 0 = 0xFFFFFFFF"
    by (simp_all add: init_sched_def sched_init_def pri_clr_def QUEUES_PER_PRIO_def
        mask_clr_bit_def Let_def mask_bit_set_def)
  have "\<not> pri_consistent (pri_run [Pri_Clr 0 0] init_sched)"
  proof
    assume "pri_consistent (pri_run [Pri_Clr 0 0] init_sched)"
    moreover have "0 < length (pri_mask (pri_run [Pri_Clr 0 0] init_sched))"
      by (simp add: init_sched_def sched_init_def pri_clr_def Let_def)
    ultimately
    have "mask_bit_set (pri_mask (pri_run [Pri_Clr 0 0] init_sched) ! 0) 0
            = (0 < pri_count (pri_run [Pri_Clr 0 0] init_sched) ! 0 ! 0)"
      unfolding pri_consistent_iff by (simp add: QUEUES_PER_PRIO_def)
    with e show False by (simp add: word_gt_0)
  qed
  with e show ?thesis by (simp add: word_gt_0)
qed

text \<open>
  Claim C1, amended: from a sized and consistent state (the initial state is one), after
  each operation of every balanced sequence (every \<^verbatim>\<open>pri_clr\<close> finds a count above
  zero, every \<^verbatim>\<open>pri_set\<close> a count below \<open>2^32 - 1\<close>, every operation names a lane
  of the fabric), the bit of \<open>(p, id)\<close> is set in \<open>pri_mask[p]\<close> iff
  \<open>pri_count[p][id] > 0\<close>. The state after the first \<open>n\<close> operations is
  \<open>pri_run (take n ops) s\<close>.
\<close>

theorem pri_mask_bit_iff_count:
  assumes "fabric_sized s" and "pri_consistent s" and "pri_balanced ops s"
  shows "pri_consistent (pri_run (take n ops) s)"
  using pri_run_balanced [OF assms(1,2) pri_balanced_take [OF assms(3)]] by simp

theorem pri_mask_bit_iff_count_witness:
  "fabric_sized init_sched \<and> pri_consistent init_sched \<and>
   pri_balanced [Pri_Set 2 0, Pri_Clr 2 0] init_sched \<and>
   pri_consistent (pri_run (take 1 [Pri_Set 2 0, Pri_Clr 2 0]) init_sched) \<and>
   pri_mask (pri_run (take 1 [Pri_Set 2 0, Pri_Clr 2 0]) init_sched) ! 0 = 4 \<and>
   pri_mask (pri_run [Pri_Set 2 0, Pri_Clr 2 0] init_sched) ! 0 = 0"
proof -
  have f: "fabric_sized init_sched" and c: "pri_consistent init_sched"
    unfolding init_sched_def by (rule fabric_sized_init, rule pri_consistent_init)
  have b: "pri_balanced [Pri_Set 2 0, Pri_Clr 2 0] init_sched"
    by (simp add: init_sched_def sched_init_def pri_set_def pri_clr_def QUEUES_PER_PRIO_def)
  have m1: "pri_mask (pri_run (take 1 [Pri_Set 2 0, Pri_Clr 2 0]) init_sched) ! 0 = 4"
    by (simp add: init_sched_def sched_init_def pri_set_def QUEUES_PER_PRIO_def mask_set_bit_def)
  have m2: "pri_mask (pri_run [Pri_Set 2 0, Pri_Clr 2 0] init_sched) ! 0 = 0"
    by (simp add: init_sched_def sched_init_def pri_set_def pri_clr_def QUEUES_PER_PRIO_def
        mask_set_bit_def mask_clr_bit_def Let_def)
  show ?thesis
    using pri_mask_bit_iff_count [OF f c b, of 1] f c b m1 m2 by blast
qed

subsection \<open>Schedule groups: which ids the operations accept\<close>

lemma well_known_below_named:
  "ODP_SCHED_GROUP_ALL < ODP_SCHED_GROUP_NAMED \<and>
   ODP_SCHED_GROUP_WORKER < ODP_SCHED_GROUP_NAMED \<and>
   ODP_SCHED_GROUP_CONTROL < ODP_SCHED_GROUP_NAMED"
  by (simp add: ODP_SCHED_GROUP_NAMED_def ODP_SCHED_GROUP_CONTROL_def ODP_SCHED_GROUP_ALL_def
      ODP_SCHED_GROUP_WORKER_def)

text \<open>
  Claim C10: for every group id below the first named slot (ALL, WORKER and CONTROL are
  such ids, by \<open>well_known_below_named\<close>), \<^verbatim>\<open>group_destroy\<close>, \<^verbatim>\<open>group_join\<close>,
  \<^verbatim>\<open>group_leave\<close> and \<^verbatim>\<open>group_thrmask\<close> return -1 (and change nothing); each of them
  returns 0 exactly for an id of the named range whose slot has a name that does not
  start with NUL, and -1 otherwise.
\<close>

theorem group_ops_named_only:
  fixes s :: "('w::len) word sched_t"
  shows
  "(grp < ODP_SCHED_GROUP_NAMED \<longrightarrow>
      odp_schedule_group_destroy grp s = (- 1, s) \<and>
      odp_schedule_group_join grp m s = (- 1, s) \<and>
      odp_schedule_group_leave grp m s = (- 1, s) \<and>
      odp_schedule_group_thrmask grp s = (- 1, None)) \<and>
   (fst (odp_schedule_group_destroy grp s) = 0 \<longleftrightarrow>
      ODP_SCHED_GROUP_NAMED \<le> grp \<and> grp < int (ODP_CONFIG_SCHED_GRPS s) \<and>
      grp_name (sched_grp s ! nat grp) ! 0 \<noteq> CHR 0x00) \<and>
   (fst (odp_schedule_group_join grp m s) = 0 \<longleftrightarrow>
      ODP_SCHED_GROUP_NAMED \<le> grp \<and> grp < int (ODP_CONFIG_SCHED_GRPS s) \<and>
      grp_name (sched_grp s ! nat grp) ! 0 \<noteq> CHR 0x00) \<and>
   (fst (odp_schedule_group_leave grp m s) = 0 \<longleftrightarrow>
      ODP_SCHED_GROUP_NAMED \<le> grp \<and> grp < int (ODP_CONFIG_SCHED_GRPS s) \<and>
      grp_name (sched_grp s ! nat grp) ! 0 \<noteq> CHR 0x00) \<and>
   (fst (odp_schedule_group_thrmask grp s) = 0 \<longleftrightarrow>
      ODP_SCHED_GROUP_NAMED \<le> grp \<and> grp < int (ODP_CONFIG_SCHED_GRPS s) \<and>
      grp_name (sched_grp s ! nat grp) ! 0 \<noteq> CHR 0x00) \<and>
   fst (odp_schedule_group_destroy grp s) \<in> {0, - 1} \<and>
   fst (odp_schedule_group_join grp m s) \<in> {0, - 1} \<and>
   fst (odp_schedule_group_leave grp m s) \<in> {0, - 1} \<and>
   fst (odp_schedule_group_thrmask grp s) \<in> {0, - 1}"
  by (simp add: odp_schedule_group_destroy_def odp_schedule_group_join_def
      odp_schedule_group_leave_def odp_schedule_group_thrmask_def Let_def)

theorem group_ops_named_only_witness:
  "ODP_SCHED_GROUP_WORKER < ODP_SCHED_GROUP_NAMED \<and>
   odp_schedule_group_destroy ODP_SCHED_GROUP_WORKER init_sched = (- 1, init_sched) \<and>
   odp_schedule_group_join ODP_SCHED_GROUP_WORKER 2 init_sched = (- 1, init_sched) \<and>
   odp_schedule_group_leave ODP_SCHED_GROUP_WORKER 2 init_sched = (- 1, init_sched) \<and>
   odp_schedule_group_thrmask ODP_SCHED_GROUP_WORKER init_sched = (- 1, None)"
  using group_ops_named_only [where grp = ODP_SCHED_GROUP_WORKER and s = init_sched and m = 2]
    well_known_below_named
  by simp

subsection \<open>Schedule groups: join followed by leave\<close>

lemma word_and_not_eq_iff: "(a AND NOT m = a) \<longleftrightarrow> (a AND m = 0)" for a m :: "'w::len word"
  by (auto simp add: bit_eq_iff bit_simps)

lemma xor_sched_mask_all: "m XOR sched_mask_all = NOT m" for m :: "'w::len word"
  by (simp add: sched_mask_all_def)

lemma join_leave_state:
  assumes "ODP_SCHED_GROUP_NAMED \<le> grp" and "grp < int (ODP_CONFIG_SCHED_GRPS s)"
    and "grp_name (sched_grp s ! nat grp) ! 0 \<noteq> CHR 0x00"
  shows "snd (odp_schedule_group_leave grp m (snd (odp_schedule_group_join grp m s))) =
     s\<lparr> sched_grp := (sched_grp s)[nat grp := (sched_grp s ! nat grp)
          \<lparr> grp_mask := grp_mask (sched_grp s ! nat grp) AND NOT m \<rparr>] \<rparr>"
  using assms
  by (simp add: odp_schedule_group_leave_def odp_schedule_group_join_def xor_sched_mask_all
      ODP_CONFIG_SCHED_GRPS_def ODP_SCHED_GROUP_NAMED_def ODP_SCHED_GROUP_CONTROL_def
      bit.conj_disj_distrib2)

lemmas grp_eval =
  odp_schedule_group_create_def odp_schedule_group_lookup_def odp_schedule_group_join_def
  odp_schedule_group_leave_def odp_schedule_group_destroy_def odp_schedule_group_thrmask_def
  sched_init_def ODP_SCHED_GROUP_NAMED_def ODP_SCHED_GROUP_CONTROL_def
  ODP_SCHED_GROUP_INVALID_def ODP_CONFIG_SCHED_GRPS_def ODP_SCHED_GROUP_NAME_LEN_def
  QUEUES_PER_PRIO_def strncpy_def strcmp_eq_def c_str_def sched_mask_all_def no_threads_def

text \<open>
  Claim C4, as stated: \<^verbatim>\<open>group_join(g, m)\<close> followed by \<^verbatim>\<open>group_leave(g, m)\<close> restores
  \<open>grp[g].mask\<close>. This fails when a thread of \<open>m\<close> was in the mask before the join:
  group 3 of \<open>grp_example\<close> has thread 0 in its mask; after joining and leaving with
  the mask of thread 0 its mask is empty.
\<close>

theorem group_join_leave_counterexample:
  "fst (odp_schedule_group_join 3 1 grp_example) = 0 \<and>
   fst (odp_schedule_group_leave 3 1 (snd (odp_schedule_group_join 3 1 grp_example))) = 0 \<and>
   grp_mask (sched_grp grp_example ! 3) = 1 \<and>
   grp_mask (sched_grp (snd (odp_schedule_group_leave 3 1
                (snd (odp_schedule_group_join 3 1 grp_example)))) ! 3) = 0"
  by (simp add: grp_example_def grp_eval)

text \<open>
  Claim C4, amended: for every named group \<open>g\<close> in use and every thread mask \<open>m\<close>,
  \<^verbatim>\<open>group_join(g, m)\<close> followed by \<^verbatim>\<open>group_leave(g, m)\<close> leaves \<open>grp[g].mask\<close> with its
  value before the join minus the threads of \<open>m\<close>; this is the value before the join
  exactly when no thread of \<open>m\<close> was in the mask before the join.
\<close>

theorem group_join_leave:
  assumes "ODP_SCHED_GROUP_NAMED \<le> grp" and "grp < int (ODP_CONFIG_SCHED_GRPS s)"
    and "grp_name (sched_grp s ! nat grp) ! 0 \<noteq> CHR 0x00"
  shows "grp_mask (sched_grp (snd (odp_schedule_group_leave grp m
                    (snd (odp_schedule_group_join grp m s)))) ! nat grp)
           = grp_mask (sched_grp s ! nat grp) AND NOT m \<and>
         (grp_mask (sched_grp (snd (odp_schedule_group_leave grp m
                    (snd (odp_schedule_group_join grp m s)))) ! nat grp)
           = grp_mask (sched_grp s ! nat grp)
          \<longleftrightarrow> grp_mask (sched_grp s ! nat grp) AND m = 0)"
proof -
  have "nat grp < length (sched_grp s)"
    using assms(1,2)
    by (simp add: ODP_CONFIG_SCHED_GRPS_def ODP_SCHED_GROUP_NAMED_def ODP_SCHED_GROUP_CONTROL_def)
  then show ?thesis
    by (simp add: join_leave_state [OF assms] word_and_not_eq_iff)
qed

theorem group_join_leave_witness:
  "ODP_SCHED_GROUP_NAMED \<le> 3 \<and> 3 < int (ODP_CONFIG_SCHED_GRPS grp_example) \<and>
   grp_name (sched_grp grp_example ! nat 3) ! 0 \<noteq> CHR 0x00 \<and>
   grp_mask (sched_grp grp_example ! nat 3) AND 6 = 0 \<and>
   grp_mask (sched_grp (snd (odp_schedule_group_leave 3 6
                (snd (odp_schedule_group_join 3 6 grp_example)))) ! nat 3)
     = grp_mask (sched_grp grp_example ! nat 3)"
proof -
  have h: "ODP_SCHED_GROUP_NAMED \<le> 3" "3 < int (ODP_CONFIG_SCHED_GRPS grp_example)"
    "grp_name (sched_grp grp_example ! nat 3) ! 0 \<noteq> CHR 0x00"
    by (simp_all add: grp_example_def grp_eval)
  have d: "grp_mask (sched_grp grp_example ! nat 3) AND 6 = 0"
    by (simp add: grp_example_def grp_eval)
  show ?thesis
    using group_join_leave [OF h, of 6] h d by blast
qed


subsection \<open>Schedule groups: lookup after create\<close>

lemma c_str_empty_iff: "bs \<noteq> [] \<Longrightarrow> (c_str bs = []) = (bs ! 0 = CHR 0x00)"
  by (cases bs) (auto simp add: c_str_def)

lemma c_str_no_nul: "CHR 0x00 \<notin> set (c_str bs)"
  unfolding c_str_def by (metis (mono_tags, lifting) set_takeWhileD)

lemma c_str_append_nul: "CHR 0x00 \<notin> set as \<Longrightarrow> c_str (as @ CHR 0x00 # bs) = as"
  unfolding c_str_def by (auto simp add: takeWhile_tail)

lemma c_str_replicate_nul: "c_str (replicate n (CHR 0x00)) = []"
  by (cases n) (simp_all add: c_str_def)

lemma drop_last: "xs \<noteq> [] \<Longrightarrow> drop (length xs - Suc 0) xs = [last xs]"
  by (cases xs rule: rev_cases) auto

text \<open>
  What \<^verbatim>\<open>strncpy\<close> into a terminated buffer leaves: the source string cut to the
  buffer's size minus one.
\<close>

lemma c_str_strncpy:
  assumes "0 < length dest" and "last dest = CHR 0x00"
  shows "c_str (strncpy dest src (length dest - 1)) = take (length dest - 1) (c_str src)"
proof -
  have "CHR 0x00 \<notin> set (take (length dest - 1) (c_str src))"
    using c_str_no_nul [of src] by (auto dest: in_set_takeD)
  moreover have "\<exists>bs. replicate (length dest - 1 - length (c_str src)) (CHR 0x00)
                        @ drop (length dest - 1) dest = CHR 0x00 # bs"
    using assms by (cases "length dest - 1 - length (c_str src)") (simp_all add: drop_last)
  ultimately show ?thesis
    unfolding strncpy_def using c_str_append_nul by metis
qed

lemma length_strncpy: "n \<le> length dest \<Longrightarrow> length (strncpy dest src n) = length dest"
  by (auto simp add: strncpy_def)

lemma last_strncpy:
  "0 < length dest \<Longrightarrow> last (strncpy dest src (length dest - 1)) = last dest"
  by (simp add: strncpy_def drop_last)

text \<open>The \<^verbatim>\<open>for\<close> loops with \<^verbatim>\<open>break\<close> find the first index of the range.\<close>

lemma find_upt_Some:
  "find P [a..<b] = Some i \<longleftrightarrow> a \<le> i \<and> i < b \<and> P i \<and> (\<forall>j. a \<le> j \<and> j < i \<longrightarrow> \<not> P j)"
proof
  assume "find P [a..<b] = Some i"
  then obtain k where k: "k < length [a..<b]" "P ([a..<b] ! k)" "i = [a..<b] ! k"
    "\<forall>j<k. \<not> P ([a..<b] ! j)"
    unfolding find_Some_iff by blast
  then have "a \<le> i" "i < b" "P i" by auto
  moreover have "\<not> P j" if "a \<le> j" "j < i" for j
  proof -
    have "j - a < k" using that k by auto
    then have "\<not> P ([a..<b] ! (j - a))" using k(4) by blast
    moreover have "[a..<b] ! (j - a) = j" using that k by auto
    ultimately show ?thesis by simp
  qed
  ultimately show "a \<le> i \<and> i < b \<and> P i \<and> (\<forall>j. a \<le> j \<and> j < i \<longrightarrow> \<not> P j)" by blast
next
  assume r: "a \<le> i \<and> i < b \<and> P i \<and> (\<forall>j. a \<le> j \<and> j < i \<longrightarrow> \<not> P j)"
  then have "i - a < length [a..<b]" "P ([a..<b] ! (i - a))" "i = [a..<b] ! (i - a)"
    "\<forall>j<i - a. \<not> P ([a..<b] ! j)" by auto
  then show "find P [a..<b] = Some i"
    unfolding find_Some_iff by blast
qed

lemma find_upt_None: "find P [a..<b] = None \<longleftrightarrow> (\<forall>j. a \<le> j \<and> j < b \<longrightarrow> \<not> P j)"
  by (auto simp add: find_None_iff)

lemma name_bound_iff:
  "name_bound N g str s \<longleftrightarrow>
     names_terminated N s \<and> str \<noteq> [] \<and> nat ODP_SCHED_GROUP_NAMED \<le> g \<and>
     g < length (sched_grp s) \<and> c_str (grp_name (sched_grp s ! g)) = str \<and>
     (\<forall>j. nat ODP_SCHED_GROUP_NAMED \<le> j \<and> j < g \<longrightarrow> c_str (grp_name (sched_grp s ! j)) \<noteq> str)"
  by (auto simp add: name_bound_def list_all_iff)

lemma lookup_name_bound:
  assumes "name_bound N g (c_str nm) s"
  shows "odp_schedule_group_lookup nm s = int g"
proof -
  have "find (\<lambda>i. strcmp_eq nm (grp_name (sched_grp s ! i)))
          [nat ODP_SCHED_GROUP_NAMED ..< ODP_CONFIG_SCHED_GRPS s] = Some g"
    unfolding find_upt_Some using assms
    by (auto simp add: name_bound_iff strcmp_eq_def ODP_CONFIG_SCHED_GRPS_def)
  then show ?thesis by (simp add: odp_schedule_group_lookup_def)
qed

lemma names_terminated_nth:
  "names_terminated N s \<Longrightarrow> i < length (sched_grp s) \<Longrightarrow>
     0 < N \<and> length (grp_name (sched_grp s ! i)) = N \<and>
     last (grp_name (sched_grp s ! i)) = CHR 0x00"
  by (simp add: names_terminated_def list_all_length)

lemma names_terminated_init: "0 < N \<Longrightarrow> names_terminated N (sched_init P G N gm)"
  by (simp add: names_terminated_def sched_init_def list_all_length)

lemma names_terminated_create:
  assumes "names_terminated N s"
  shows "names_terminated N (snd (odp_schedule_group_create nm m s))"
proof (cases "find (\<lambda>i. grp_name (sched_grp s ! i) ! 0 = CHR 0x00)
             [nat ODP_SCHED_GROUP_NAMED ..< ODP_CONFIG_SCHED_GRPS s]")
  case None
  then show ?thesis using assms by (simp add: odp_schedule_group_create_def)
next
  case (Some i)
  then have i: "i < length (sched_grp s)"
    by (simp add: find_upt_Some ODP_CONFIG_SCHED_GRPS_def)
  note t = names_terminated_nth [OF assms i]
  have "length (strncpy (grp_name (sched_grp s ! i)) nm (N - 1)) = N"
    "last (strncpy (grp_name (sched_grp s ! i)) nm (N - 1)) = CHR 0x00"
    using t length_strncpy [of "N - 1" "grp_name (sched_grp s ! i)" nm]
      last_strncpy [of "grp_name (sched_grp s ! i)" nm] by auto
  then show ?thesis
    using assms Some t
    by (auto simp add: odp_schedule_group_create_def names_terminated_def list_all_length
        nth_upd ODP_SCHED_GROUP_NAME_LEN_def)
qed

lemma names_terminated_destroy:
  "names_terminated N s \<Longrightarrow> names_terminated N (snd (odp_schedule_group_destroy g s))"
  by (auto simp add: odp_schedule_group_destroy_def names_terminated_def list_all_length
      nth_upd ODP_SCHED_GROUP_NAME_LEN_def)

lemma names_terminated_join:
  "names_terminated N s \<Longrightarrow> names_terminated N (snd (odp_schedule_group_join g m s))"
  by (auto simp add: odp_schedule_group_join_def names_terminated_def list_all_length nth_upd)

lemma names_terminated_leave:
  "names_terminated N s \<Longrightarrow> names_terminated N (snd (odp_schedule_group_leave g m s))"
  by (auto simp add: odp_schedule_group_leave_def names_terminated_def list_all_length
      nth_upd Let_def)

text \<open>
  A \<^verbatim>\<open>group_create\<close> of another string takes a free slot, which is not the slot \<open>g\<close>,
  and stores a string that differs from \<open>str\<close>.
\<close>

lemma name_bound_create:
  assumes b: "name_bound N g str s" and d: "take (N - 1) (c_str nm) \<noteq> str"
  shows "name_bound N g str (snd (odp_schedule_group_create nm m s))"
proof (cases "find (\<lambda>i. grp_name (sched_grp s ! i) ! 0 = CHR 0x00)
             [nat ODP_SCHED_GROUP_NAMED ..< ODP_CONFIG_SCHED_GRPS s]")
  case None
  then show ?thesis using b by (simp add: odp_schedule_group_create_def)
next
  case (Some i)
  then have i: "i < length (sched_grp s)" "grp_name (sched_grp s ! i) ! 0 = CHR 0x00"
    by (simp_all add: find_upt_Some ODP_CONFIG_SCHED_GRPS_def)
  from b have nt: "names_terminated N s" and g: "g < length (sched_grp s)"
    and str: "str \<noteq> []" "c_str (grp_name (sched_grp s ! g)) = str"
    by (simp_all add: name_bound_iff)
  note ti = names_terminated_nth [OF nt i(1)]
  have "c_str (grp_name (sched_grp s ! i)) = []"
    using c_str_empty_iff [of "grp_name (sched_grp s ! i)"] ti i(2) by auto
  with str have ig: "i \<noteq> g" by auto
  have new: "c_str (strncpy (grp_name (sched_grp s ! i)) nm (N - 1)) = take (N - 1) (c_str nm)"
    using c_str_strncpy [of "grp_name (sched_grp s ! i)" nm] ti by simp
  have nt': "names_terminated N (snd (odp_schedule_group_create nm m s))"
    using nt by (rule names_terminated_create)
  show ?thesis
    unfolding name_bound_iff
    using b nt' Some ig new d ti
    by (auto simp add: name_bound_iff odp_schedule_group_create_def nth_upd
        ODP_SCHED_GROUP_NAME_LEN_def)
qed

lemma name_bound_destroy:
  assumes b: "name_bound N g str s" and d: "g' \<noteq> int g"
  shows "name_bound N g str (snd (odp_schedule_group_destroy g' s))"
proof -
  have nt': "names_terminated N (snd (odp_schedule_group_destroy g' s))"
    using b by (simp add: name_bound_iff names_terminated_destroy)
  show ?thesis
    unfolding name_bound_iff
    using b nt' d
    by (auto simp add: name_bound_iff odp_schedule_group_destroy_def nth_upd
        c_str_replicate_nul ODP_SCHED_GROUP_NAMED_def ODP_SCHED_GROUP_CONTROL_def)
qed

lemma name_bound_join:
  "name_bound N g str s \<Longrightarrow> name_bound N g str (snd (odp_schedule_group_join g' m s))"
  using names_terminated_join [of N s g' m]
  by (auto simp add: name_bound_iff odp_schedule_group_join_def nth_upd)

lemma name_bound_leave:
  "name_bound N g str s \<Longrightarrow> name_bound N g str (snd (odp_schedule_group_leave g' m s))"
  using names_terminated_leave [of N s g' m]
  by (auto simp add: name_bound_iff odp_schedule_group_leave_def nth_upd Let_def)

lemma name_bound_step:
  "name_bound N g str s \<Longrightarrow> \<not> grp_op_disturbs N (int g) str x \<Longrightarrow>
     name_bound N g str (grp_step x s)"
  by (cases x)
    (simp_all add: name_bound_create name_bound_destroy name_bound_join name_bound_leave)

lemma name_bound_run:
  "name_bound N g str s \<Longrightarrow> list_all (\<lambda>x. \<not> grp_op_disturbs N (int g) str x) ops \<Longrightarrow>
     name_bound N g str (grp_run ops s)"
  by (induction ops arbitrary: s) (simp_all add: name_bound_step)

lemma name_bound_after_create:
  assumes nt: "names_terminated N s" and ne: "c_str nm \<noteq> []" and len: "length (c_str nm) < N"
    and fresh: "odp_schedule_group_lookup nm s = ODP_SCHED_GROUP_INVALID"
    and cr: "odp_schedule_group_create nm m s = (g, s1)" and ok: "g \<noteq> ODP_SCHED_GROUP_INVALID"
  shows "0 \<le> g \<and> name_bound N (nat g) (c_str nm) s1"
proof (cases "find (\<lambda>i. grp_name (sched_grp s ! i) ! 0 = CHR 0x00)
             [nat ODP_SCHED_GROUP_NAMED ..< ODP_CONFIG_SCHED_GRPS s]")
  case None
  then show ?thesis using cr ok by (simp add: odp_schedule_group_create_def)
next
  case (Some i)
  then have i: "nat ODP_SCHED_GROUP_NAMED \<le> i" "i < length (sched_grp s)"
    by (simp_all add: find_upt_Some ODP_CONFIG_SCHED_GRPS_def)
  from Some cr have g: "g = int i" and s1: "s1 = snd (odp_schedule_group_create nm m s)"
    by (auto simp add: odp_schedule_group_create_def)
  note ti = names_terminated_nth [OF nt i(2)]
  have new: "c_str (strncpy (grp_name (sched_grp s ! i)) nm (N - 1)) = c_str nm"
    using c_str_strncpy [of "grp_name (sched_grp s ! i)" nm] ti len by simp
  have none: "\<forall>j. nat ODP_SCHED_GROUP_NAMED \<le> j \<and> j < length (sched_grp s) \<longrightarrow>
                 c_str (grp_name (sched_grp s ! j)) \<noteq> c_str nm"
  proof -
    have "find (\<lambda>i. strcmp_eq nm (grp_name (sched_grp s ! i)))
             [nat ODP_SCHED_GROUP_NAMED ..< ODP_CONFIG_SCHED_GRPS s] = None"
      using fresh
      by (auto simp add: odp_schedule_group_lookup_def ODP_SCHED_GROUP_INVALID_def
          split: option.splits)
    then show ?thesis
      by (auto simp add: find_upt_None strcmp_eq_def ODP_CONFIG_SCHED_GRPS_def)
  qed
  have nt': "names_terminated N s1"
    unfolding s1 using nt by (rule names_terminated_create)
  have "name_bound N i (c_str nm) s1"
    unfolding name_bound_iff
    using nt' ne i new none Some ti
    by (auto simp add: s1 odp_schedule_group_create_def nth_upd ODP_SCHED_GROUP_NAME_LEN_def)
  then show ?thesis using g by simp
qed

text \<open>
  Claim C5, as stated: for every name, after \<^verbatim>\<open>group_create(name, mask)\<close> returned a
  valid id and until \<^verbatim>\<open>group_destroy\<close> of that id, \<^verbatim>\<open>group_lookup(name)\<close> returns that
  id. This fails for a name that another slot holds already: in \<open>grp_example\<close> slot 3
  holds \<open>a\<close>; a second \<^verbatim>\<open>group_create\<close> of \<open>a\<close> returns 4, and \<^verbatim>\<open>group_lookup\<close> of
  \<open>a\<close> still returns 3.
\<close>

theorem group_lookup_duplicate_counterexample:
  "fst (odp_schedule_group_create ''a'' 2 grp_example) = 4 \<and>
   odp_schedule_group_lookup ''a'' (snd (odp_schedule_group_create ''a'' 2 grp_example)) = 3"
  by (simp add: grp_example_def grp_eval)

text \<open>
  It fails also for a name of \<^verbatim>\<open>ODP_SCHED_GROUP_NAME_LEN\<close> characters or more, of
  which the slot keeps the first \<^verbatim>\<open>ODP_SCHED_GROUP_NAME_LEN - 1\<close> only: with buffers
  of four bytes, \<^verbatim>\<open>group_create\<close> of \<open>abcd\<close> returns 3 and \<^verbatim>\<open>group_lookup\<close> of \<open>abcd\<close>
  finds nothing.
\<close>

lemma group_lookup_truncated_name:
  "fst (odp_schedule_group_create ''abcd'' 0 short_names_sched) = 3 \<and>
   odp_schedule_group_lookup ''abcd''
     (snd (odp_schedule_group_create ''abcd'' 0 short_names_sched))
     = ODP_SCHED_GROUP_INVALID"
  by (simp add: short_names_sched_def grp_eval)

text \<open>
  Claim C5, amended: for every non-empty name shorter than
  \<^verbatim>\<open>ODP_SCHED_GROUP_NAME_LEN\<close> that no group holds (\<^verbatim>\<open>group_lookup\<close> of it returns
  \<^verbatim>\<open>INVALID\<close>), after \<^verbatim>\<open>group_create(name, mask)\<close> returned a valid id \<open>g\<close>,
  \<^verbatim>\<open>group_lookup(name)\<close> returns \<open>g\<close>, and still does after each of any further group
  operations \<open>ops\<close> among which there is no \<^verbatim>\<open>group_destroy\<close> of \<open>g\<close> and no
  \<^verbatim>\<open>group_create\<close> of a name with the same first \<^verbatim>\<open>ODP_SCHED_GROUP_NAME_LEN - 1\<close>
  characters.
\<close>

theorem group_lookup_after_create:
  assumes "names_terminated N s" and "c_str nm \<noteq> []" and "length (c_str nm) < N"
    and "odp_schedule_group_lookup nm s = ODP_SCHED_GROUP_INVALID"
    and "odp_schedule_group_create nm m s = (g, s1)" and "g \<noteq> ODP_SCHED_GROUP_INVALID"
    and "list_all (\<lambda>x. \<not> grp_op_disturbs N g (c_str nm) x) ops"
  shows "odp_schedule_group_lookup nm (grp_run (take n ops) s1) = g"
proof -
  from name_bound_after_create [OF assms(1-6)]
  have g: "0 \<le> g" and b: "name_bound N (nat g) (c_str nm) s1" by simp_all
  have "list_all (\<lambda>x. \<not> grp_op_disturbs N (int (nat g)) (c_str nm) x) (take n ops)"
    using assms(7) g by (auto simp add: list_all_iff dest: in_set_takeD)
  from name_bound_run [OF b this] lookup_name_bound g show ?thesis by fastforce
qed

theorem group_lookup_after_create_witness:
  "names_terminated 8 grp_example \<and> c_str ''b'' \<noteq> [] \<and> length (c_str ''b'') < 8 \<and>
   odp_schedule_group_lookup ''b'' grp_example = ODP_SCHED_GROUP_INVALID \<and>
   odp_schedule_group_create ''b'' 2 grp_example
     = (4, snd (odp_schedule_group_create ''b'' 2 grp_example)) \<and>
   4 \<noteq> ODP_SCHED_GROUP_INVALID \<and>
   list_all (\<lambda>x. \<not> grp_op_disturbs 8 4 (c_str ''b'') x)
     [Grp_Destroy 3, Grp_Create ''c'' 1, Grp_Leave 4 2] \<and>
   odp_schedule_group_lookup ''b''
     (grp_run (take 3 [Grp_Destroy 3, Grp_Create ''c'' 1, Grp_Leave 4 2])
        (snd (odp_schedule_group_create ''b'' 2 grp_example))) = 4"
proof -
  have nt: "names_terminated 8 grp_example"
    unfolding grp_example_def
    by (rule names_terminated_create) (simp add: names_terminated_init)
  have h: "c_str ''b'' \<noteq> []" "length (c_str ''b'') < 8"
    "odp_schedule_group_lookup ''b'' grp_example = ODP_SCHED_GROUP_INVALID"
    "odp_schedule_group_create ''b'' 2 grp_example
       = (4, snd (odp_schedule_group_create ''b'' 2 grp_example))"
    "4 \<noteq> ODP_SCHED_GROUP_INVALID"
    "list_all (\<lambda>x. \<not> grp_op_disturbs 8 4 (c_str ''b'') x)
       [Grp_Destroy 3, Grp_Create ''c'' 1, Grp_Leave 4 2]"
    by (simp_all add: grp_example_def grp_eval)
  show ?thesis
    using group_lookup_after_create [OF nt h, of 3] nt h by blast
qed


subsection \<open>Releasing the ordered context\<close>

lemmas world_eval =
  idle_world_def ordered_held_world_def cached_world_def failing_platform_def
  sched_local_init_def empty_queue_def ev_hdr_def grp_queue_def grp_world_def
  grp_world_served_def grp_world_left_def ord_queue_def ord_world_def
  peer_unlocks_def lock_wait_world_def lock_held_world_def lock_released_world_def
  wrap_world_def wrapped_world_def paused_world_def odp_schedule_pause_def no_threads_def

text \<open>
  \<^verbatim>\<open>odp_schedule_release_ordered\<close> keeps the ordered context when \<^verbatim>\<open>release_order\<close>
  fails; \<^verbatim>\<open>odp_schedule_release_context\<close> clears it whatever \<^verbatim>\<open>release_order\<close>
  returns.
\<close>

lemma release_ordered_keeps:
  "sl_origin_qe (sched_local w) = Some q \<Longrightarrow>
   release_order X q (sl_order (sched_local w)) (sl_pool (sched_local w))
     (sl_enq_called (sched_local w)) w = (rc, w') \<Longrightarrow>
   rc \<noteq> 0 \<Longrightarrow> odp_schedule_release_ordered X w = w'"
  by (simp add: odp_schedule_release_ordered_def split: prod.splits)

lemma release_context_clears:
  "sl_origin_qe (sched_local w) = Some q \<Longrightarrow>
     \<exists>w'. odp_schedule_release_context X w = Ok w' \<and> sl_origin_qe (sched_local w') = None"
  by (simp add: odp_schedule_release_context_def split: prod.splits)

text \<open>
  Claim C2: with an ordered context held, \<^verbatim>\<open>release_context\<close> behaves as
  \<^verbatim>\<open>release_ordered\<close> and keeps the context when \<^verbatim>\<open>release_order\<close> fails. The code does
  not: in \<open>ordered_held_world\<close> the context of queue 7 is held and \<^verbatim>\<open>release_order\<close>
  returns -1; \<^verbatim>\<open>odp_schedule_release_ordered\<close> keeps \<^verbatim>\<open>origin_qe\<close>, and
  \<^verbatim>\<open>odp_schedule_release_context\<close> sets it to \<^verbatim>\<open>NULL\<close>.
\<close>

theorem release_context_drops_failed_release:
  "release_order failing_platform 7 0 0 0 ordered_held_world = (- 1, ordered_held_world) \<and>
   sl_origin_qe (sched_local (odp_schedule_release_ordered failing_platform ordered_held_world))
     = Some 7 \<and>
   odp_schedule_release_context failing_platform ordered_held_world = Ok idle_world"
  by (simp add: odp_schedule_release_ordered_def odp_schedule_release_context_def world_eval)

subsection \<open>The dispatcher: serving cached events\<close>

text \<open>
  \<^verbatim>\<open>copy_events\<close> copies the handles of the next \<open>min(max, num)\<close> cached headers,
  starting at \<^verbatim>\<open>index\<close>, and moves \<^verbatim>\<open>index\<close> and \<^verbatim>\<open>num\<close> by that count.
\<close>

lemma copy_events_eq:
  "0 \<le> sl_num l \<Longrightarrow>
   copy_events n l =
     (map (\<lambda>k. buf_handle (sl_buf_hdr l ! nat (sl_index l + int k)))
        [0..<min n (nat (sl_num l))],
      l\<lparr> sl_index := sl_index l + int (min n (nat (sl_num l))),
         sl_num := sl_num l - int (min n (nat (sl_num l))) \<rparr>)"
proof (induction n arbitrary: l)
  case 0
  then show ?case by simp
next
  case (Suc n)
  show ?case
  proof (cases "sl_num l = 0")
    case True
    then show ?thesis by simp
  next
    case False
    with Suc.prems have pos: "0 < sl_num l" by simp
    let ?l1 = "l\<lparr> sl_index := sl_index l + 1, sl_num := sl_num l - 1 \<rparr>"
    have ih: "copy_events n ?l1 =
       (map (\<lambda>k. buf_handle (sl_buf_hdr ?l1 ! nat (sl_index ?l1 + int k)))
          [0..<min n (nat (sl_num ?l1))],
        ?l1\<lparr> sl_index := sl_index ?l1 + int (min n (nat (sl_num ?l1))),
           sl_num := sl_num ?l1 - int (min n (nat (sl_num ?l1))) \<rparr>)"
      using pos by (intro Suc.IH) simp
    have m: "min (Suc n) (nat (sl_num l)) = Suc (min n (nat (sl_num l - 1)))"
      using pos by (simp add: min_def nat_diff_distrib) linarith
    show ?thesis
      using False pos
      apply (simp only: copy_events.simps ih m if_False Let_def prod.case map_upt_Suc)
      apply (simp add: add.assoc)
      done
  qed
qed

text \<open>
  Claim C8: a call of \<^verbatim>\<open>schedule\<close> with \<open>local_num > 0\<close> writes exactly
  \<open>min(local_num, max_num)\<close> cached events (those from \<open>local_index\<close> on) to
  \<open>out_events\<close>, returns that count, writes the handle of the cached source queue to
  \<open>*out_src\<close> when \<open>out_src\<close> is non-null, and changes nothing in the state but
  \<open>local_index\<close>, advanced by the count, and \<open>local_num\<close>, decreased by it: the atomic
  and the ordered context, the lanes and the queues stay as they are. (The pointer
  \<^verbatim>\<open>sched_local.qe\<close> is read only when \<open>out_src\<close> is non-null.)
\<close>

theorem schedule_serves_cached_events:
  assumes "0 < sl_num (sched_local w)" and "oq \<Longrightarrow> sl_qe (sched_local w) = Some qe"
  shows "schedule X thr oq max_num max_deq w =
     Return (int (min max_num (nat (sl_num (sched_local w)))))
       (map (\<lambda>k. buf_handle (sl_buf_hdr (sched_local w) ! nat (sl_index (sched_local w) + int k)))
          [0..<min max_num (nat (sl_num (sched_local w)))])
       (if oq then Some (queue_handle qe w) else None)
       (w\<lparr> sched_local := (sched_local w)
            \<lparr> sl_index := sl_index (sched_local w)
                            + int (min max_num (nat (sl_num (sched_local w)))),
              sl_num := sl_num (sched_local w)
                          - int (min max_num (nat (sl_num (sched_local w)))) \<rparr> \<rparr>)"
proof -
  have "0 \<le> sl_num (sched_local w)" using assms(1) by simp
  from copy_events_eq [OF this, of max_num] assms show ?thesis
    by (simp add: schedule_def)
qed

theorem schedule_serves_cached_events_witness:
  "0 < sl_num (sched_local cached_world) \<and> sl_qe (sched_local cached_world) = Some 7 \<and>
   schedule failing_platform 0 True 1 MAX_DEQ cached_world =
     Return 1 [11] (Some 0)
       (cached_world\<lparr> sched_local := (sched_local cached_world)
                        \<lparr> sl_index := 2, sl_num := 1 \<rparr> \<rparr>)"
  using schedule_serves_cached_events [where w = cached_world and oq = True and qe = 7
      and max_num = 1 and X = failing_platform and thr = 0 and max_deq = MAX_DEQ]
  by (simp add: world_eval queue_handle_def)


subsection \<open>The dispatcher: evaluating a call on a given state\<close>

text \<open>The loops at a numeral: one round of the loop, as the equations for \<open>Suc\<close> give it.\<close>

lemmas schedule_prios_numeral =
  schedule_prios.simps(2) [where n = "pred_numeral k", folded numeral_eq_Suc] for k

lemmas schedule_lanes_numeral =
  schedule_lanes.simps(2) [where n = "pred_numeral k", folded numeral_eq_Suc] for k

lemmas copy_events_numeral =
  copy_events.simps(2) [where n = "pred_numeral k", folded numeral_eq_Suc] for k

lemmas sched_eval =
  schedule_def schedule_lane_def schedule_dequeue_def odp_schedule_release_context_def
  odp_schedule_release_atomic_def odp_queue_deq_def odp_queue_enq_def queue_deq_multi_def
  queue_is_ordered_def queue_is_atomic_def queue_handle_def queue_destroy_finalize_def
  pri_set_queue_def pri_id_queue_def pri_set_def mask_set_bit_def mask_bit_set_def
  odp_thrmask_isset_def ODP_CONFIG_SCHED_PRIOS_def ODP_SCHED_GROUP_ALL_def MAX_DEQ_def
  cache_sync_def schedule_prios_numeral schedule_lanes_numeral copy_events_numeral
  Let_def numeral_2_eq_2 [symmetric]

subsection \<open>The dispatcher: the group check\<close>

text \<open>
  The token of a queue the thread is not eligible for goes back to the tail of its
  lane, and the lane walk goes on with nothing else changed: no event leaves the
  source queue, the local context is as before. (The lane holds no more tokens than
  it has room for, so the re-enqueue succeeds.)
\<close>

lemma schedule_lane_ineligible:
  assumes "mask_bit_set (pri_mask (sched w) ! i) ln"
    and "lane_events (lanes w (pri_queue (sched w) ! i ! ln)) = SCHED_CMD_DEQUEUE qe # rest"
    and "length (lane_events (lanes w (pri_queue (sched w) ! i ! ln)))
           \<le> lane_size (lanes w (pri_queue (sched w) ! i ! ln))"
    and "ODP_SCHED_GROUP_ALL < qe_group (queue_tbl w qe)"
    and "\<not> odp_thrmask_isset
             (grp_mask (sched_grp (sched w) ! nat (qe_group (queue_tbl w qe)))) thr"
  shows "schedule_lane X thr oq max_num i ln max_deq w =
     Continue max_deq
       (w\<lparr> lanes := (lanes w)(pri_queue (sched w) ! i ! ln :=
              (lanes w (pri_queue (sched w) ! i ! ln))
                \<lparr> lane_events := rest @ [SCHED_CMD_DEQUEUE qe] \<rparr>) \<rparr>)"
  using assms
  by (simp add: schedule_lane_def odp_queue_deq_def odp_queue_enq_def Let_def)

lemma copy_events_qe: "copy_events n l = (evs, l') \<Longrightarrow> sl_qe l' = sl_qe l"
proof (induction n arbitrary: l evs l')
  case 0
  then show ?case by simp
next
  case (Suc n)
  show ?case
  proof (cases "sl_num l = 0")
    case True
    with Suc.prems show ?thesis by simp
  next
    case False
    obtain es l1
      where c: "copy_events n (l\<lparr> sl_index := sl_index l + 1, sl_num := sl_num l - 1 \<rparr>) = (es, l1)"
      by (cases "copy_events n (l\<lparr> sl_index := sl_index l + 1, sl_num := sl_num l - 1 \<rparr>)")
    from Suc.IH [OF c] have "sl_qe l1 = sl_qe l" by simp
    moreover from Suc.prems False c have "l' = l1" by (simp add: Let_def)
    ultimately show ?thesis by simp
  qed
qed

text \<open>A lane pass that returns events has passed the group check for their queue.\<close>

lemma schedule_lane_return_eligible:
  assumes "schedule_lane X thr oq max_num i ln max_deq w = Return ret evs out w'"
  shows "served_eligible thr w'"
  using assms
  unfolding schedule_lane_def schedule_dequeue_def odp_queue_deq_def odp_queue_enq_def
    queue_deq_multi_def served_eligible_def queue_is_ordered_def queue_is_atomic_def
  by (auto simp add: Let_def
      split: if_splits list.splits sched_cmd_t.splits prod.splits option.splits
      dest: copy_events_qe)

text \<open>
  Events that a call returns after finding the cache empty were returned by one pass
  over a lane.
\<close>

lemma schedule_lanes_return_lane:
  "schedule_lanes X thr oq max_num i n ln max_deq w = Return ret evs out w' \<Longrightarrow>
     \<exists>ln' md w0. schedule_lane X thr oq max_num i ln' md w0 = Return ret evs out w'"
proof (induction n arbitrary: ln max_deq w)
  case 0
  then show ?case by simp
next
  case (Suc n)
  let ?ln = "if QUEUES_PER_PRIO \<le> ln then 0 else ln"
  show ?case
  proof (cases "schedule_lane X thr oq max_num i ?ln max_deq w")
    case (Continue md w1)
    with Suc.prems
    have "schedule_lanes X thr oq max_num i n (?ln + 1) md w1 = Return ret evs out w'"
      by (simp add: Let_def)
    then show ?thesis by (rule Suc.IH)
  next
    case (Return r es ou w1)
    with Suc.prems have "r = ret \<and> es = evs \<and> ou = out \<and> w1 = w'" by (simp add: Let_def)
    with Return show ?thesis by blast
  next
    case Aborted
    with Suc.prems show ?thesis by (simp add: Let_def)
  qed
qed

lemma schedule_prios_return_lane:
  "schedule_prios X thr oq max_num n i max_deq w = Return ret evs out w' \<Longrightarrow> ret \<noteq> 0 \<Longrightarrow>
     \<exists>i' ln' md w0. schedule_lane X thr oq max_num i' ln' md w0 = Return ret evs out w'"
proof (induction n arbitrary: i max_deq w)
  case 0
  then show ?case by simp
next
  case (Suc n)
  show ?case
  proof (cases "pri_mask (sched w) ! i = 0")
    case True
    with Suc.prems
    have "schedule_prios X thr oq max_num n (i + 1) max_deq w = Return ret evs out w'"
      by simp
    then show ?thesis using Suc.prems(2) by (rule Suc.IH)
  next
    case False
    show ?thesis
    proof (cases "schedule_lanes X thr oq max_num i QUEUES_PER_PRIO
                    (thr AND (QUEUES_PER_PRIO - 1)) max_deq w")
      case (Continue md w1)
      with Suc.prems False
      have "schedule_prios X thr oq max_num n (i + 1) md w1 = Return ret evs out w'"
        by simp
      then show ?thesis using Suc.prems(2) by (rule Suc.IH)
    next
      case (Return r es ou w1)
      with Suc.prems False have "r = ret \<and> es = evs \<and> ou = out \<and> w1 = w'" by simp
      with Return
      have "schedule_lanes X thr oq max_num i QUEUES_PER_PRIO
              (thr AND (QUEUES_PER_PRIO - 1)) max_deq w = Return ret evs out w'"
        by simp
      from schedule_lanes_return_lane [OF this] show ?thesis by blast
    next
      case Aborted
      with Suc.prems False show ?thesis by simp
    qed
  qed
qed

lemma schedule_dispatch_lane:
  assumes "sl_num (sched_local w) = 0"
    and "schedule X thr oq max_num max_deq w = Return ret evs out w'" and "ret \<noteq> 0"
  shows "\<exists>i ln md w0. schedule_lane X thr oq max_num i ln md w0 = Return ret evs out w'"
proof (cases "odp_schedule_release_context X w")
  case (Ok w1)
  show ?thesis
  proof (cases "sl_pause (sched_local w1) = 0")
    case True
    with assms Ok
    have "schedule_prios X thr oq max_num (ODP_CONFIG_SCHED_PRIOS (sched w1)) 0 max_deq w1
            = Return ret evs out w'"
      by (simp add: schedule_def)
    then show ?thesis using assms(3) by (rule schedule_prios_return_lane)
  next
    case False
    with assms Ok show ?thesis by (simp add: schedule_def)
  qed
next
  case Abort
  with assms show ?thesis by (simp add: schedule_def)
qed

text \<open>
  A call that finds the cache empty returns events only of a queue the thread is
  eligible for.
\<close>

lemma schedule_dispatch_eligible:
  assumes "sl_num (sched_local w) = 0"
    and "schedule X thr oq max_num max_deq w = Return ret evs out w'" and "ret \<noteq> 0"
  shows "served_eligible thr w'"
  using schedule_dispatch_lane [OF assms] schedule_lane_return_eligible by blast

text \<open>
  Claim C6, as stated: a thread whose id is not set in \<open>grp[g].mask\<close> never receives
  events from a queue whose group \<open>g\<close> is above ALL. This fails for events the thread
  has cached: thread 0, a member of group 3, asks for one event and is given event 11
  of queue 5, whose second event stays in the thread's cache; \<^verbatim>\<open>group_leave\<close> then takes
  thread 0 out of group 3; the next call of \<^verbatim>\<open>schedule\<close> by thread 0 returns event 12 of
  queue 5, whose group is 3, from the cache, where no group check is made.
\<close>

theorem group_check_cached_counterexample:
  "schedule failing_platform 0 True 1 MAX_DEQ grp_world
     = Return 1 [11] (Some 5) grp_world_served \<and>
   fst (odp_schedule_group_leave 3 1 (sched grp_world_served)) = 0 \<and>
   qe_group (queue_tbl grp_world_left 5) = 3 \<and> ODP_SCHED_GROUP_ALL < 3 \<and>
   \<not> odp_thrmask_isset (grp_mask (sched_grp (sched grp_world_left) ! 3)) 0 \<and>
   schedule failing_platform 0 True 1 MAX_DEQ grp_world_left =
     Return 1 [12] (Some 5)
       (grp_world_left\<lparr> sched_local := (sched_local grp_world_left)
                            \<lparr> sl_index := 2, sl_num := 0 \<rparr> \<rparr>)"
  by (simp add: world_eval grp_eval sched_eval)

text \<open>
  Claim C6, amended: when the dispatcher dequeues the command token of a queue whose
  group \<open>g\<close> is above ALL and the calling thread's id is not set in \<open>grp[g].mask\<close>, it
  re-enqueues the token onto the same lane and continues the lane walk without
  draining the queue; so a call of \<^verbatim>\<open>schedule\<close> that finds no cached events
  (\<open>local_num = 0\<close>) returns events only from a queue whose group is not above ALL or
  has the thread in its mask. Events cached by an earlier call are returned without a
  group check.
\<close>

theorem group_check_recirculates:
  "(mask_bit_set (pri_mask (sched w) ! i) ln \<and>
    lane_events (lanes w (pri_queue (sched w) ! i ! ln)) = SCHED_CMD_DEQUEUE qe # rest \<and>
    length (lane_events (lanes w (pri_queue (sched w) ! i ! ln)))
      \<le> lane_size (lanes w (pri_queue (sched w) ! i ! ln)) \<and>
    ODP_SCHED_GROUP_ALL < qe_group (queue_tbl w qe) \<and>
    \<not> odp_thrmask_isset (grp_mask (sched_grp (sched w) ! nat (qe_group (queue_tbl w qe)))) thr
    \<longrightarrow>
    schedule_lane X thr oq max_num i ln max_deq w =
      Continue max_deq
        (w\<lparr> lanes := (lanes w)(pri_queue (sched w) ! i ! ln :=
               (lanes w (pri_queue (sched w) ! i ! ln))
                 \<lparr> lane_events := rest @ [SCHED_CMD_DEQUEUE qe] \<rparr>) \<rparr>)) \<and>
   (sl_num (sched_local v) = 0 \<and>
    schedule X thr oq max_num max_deq v = Return ret evs out v' \<and> ret \<noteq> 0
    \<longrightarrow> served_eligible thr v')"
  using schedule_lane_ineligible schedule_dispatch_eligible by blast

theorem group_check_recirculates_witness:
  "mask_bit_set (pri_mask (sched grp_world) ! 0) 1 \<and>
   lane_events (lanes grp_world (pri_queue (sched grp_world) ! 0 ! 1)) = SCHED_CMD_DEQUEUE 5 # [] \<and>
   length (lane_events (lanes grp_world (pri_queue (sched grp_world) ! 0 ! 1)))
     \<le> lane_size (lanes grp_world (pri_queue (sched grp_world) ! 0 ! 1)) \<and>
   ODP_SCHED_GROUP_ALL < qe_group (queue_tbl grp_world 5) \<and>
   \<not> odp_thrmask_isset
       (grp_mask (sched_grp (sched grp_world) ! nat (qe_group (queue_tbl grp_world 5)))) 1 \<and>
   schedule_lane failing_platform 1 True 1 0 1 MAX_DEQ grp_world = Continue MAX_DEQ grp_world \<and>
   sl_num (sched_local grp_world) = 0 \<and>
   schedule failing_platform 0 True 1 MAX_DEQ grp_world
     = Return 1 [11] (Some 5) grp_world_served \<and>
   served_eligible 0 grp_world_served"
proof -
  have h: "mask_bit_set (pri_mask (sched grp_world) ! 0) 1"
    "lane_events (lanes grp_world (pri_queue (sched grp_world) ! 0 ! 1)) = SCHED_CMD_DEQUEUE 5 # []"
    "length (lane_events (lanes grp_world (pri_queue (sched grp_world) ! 0 ! 1)))
       \<le> lane_size (lanes grp_world (pri_queue (sched grp_world) ! 0 ! 1))"
    "ODP_SCHED_GROUP_ALL < qe_group (queue_tbl grp_world 5)"
    "\<not> odp_thrmask_isset
         (grp_mask (sched_grp (sched grp_world) ! nat (qe_group (queue_tbl grp_world 5)))) 1"
    by (simp_all add: world_eval grp_eval sched_eval)
  have same: "grp_world\<lparr> lanes := (lanes grp_world)(pri_queue (sched grp_world) ! 0 ! 1 :=
                 (lanes grp_world (pri_queue (sched grp_world) ! 0 ! 1))
                   \<lparr> lane_events := [] @ [SCHED_CMD_DEQUEUE 5] \<rparr>) \<rparr> = grp_world"
    by (simp add: world_eval grp_eval sched_eval)
  have c: "sl_num (sched_local grp_world) = 0"
    "schedule failing_platform 0 True 1 MAX_DEQ grp_world
       = Return 1 [11] (Some 5) grp_world_served"
    by (simp_all add: world_eval grp_eval sched_eval)
  have n: "(1::int) \<noteq> 0" by simp
  show ?thesis
    using group_check_recirculates [where w = grp_world and i = 0 and ln = 1 and qe = 5
        and rest = "[]" and thr = 1 and X = failing_platform and oq = True and max_num = 1
        and max_deq = MAX_DEQ]
      group_check_recirculates [where v = grp_world and thr = 0 and X = failing_platform
        and oq = True and max_num = 1 and max_deq = MAX_DEQ and ret = 1 and evs = "[11]"
        and out = "Some 5" and v' = grp_world_served]
      h same c n
    by metis
qed

subsection \<open>The dispatcher: ordered queues are drained one event at a time\<close>

text \<open>
  The drain step of an ordered queue is the one with \<open>max_deq = 1\<close>, and so is the pass
  over a lane that dispatches the DEQUEUE command of an ordered queue.
\<close>

lemma schedule_dequeue_ordered:
  "queue_is_ordered qe w \<Longrightarrow>
     schedule_dequeue oq max_num pri_q qe max_deq w = schedule_dequeue oq max_num pri_q qe 1 w"
  by (simp add: schedule_dequeue_def)

lemma schedule_lane_ordered:
  assumes "mask_bit_set (pri_mask (sched w) ! i) ln"
    and "lane_events (lanes w (pri_queue (sched w) ! i ! ln)) = SCHED_CMD_DEQUEUE qe # rest"
    and "length (lane_events (lanes w (pri_queue (sched w) ! i ! ln)))
           \<le> lane_size (lanes w (pri_queue (sched w) ! i ! ln))"
    and "\<not> (ODP_SCHED_GROUP_ALL < qe_group (queue_tbl w qe) \<and>
            \<not> odp_thrmask_isset
                (grp_mask (sched_grp (sched w) ! nat (qe_group (queue_tbl w qe)))) thr)"
    and "queue_is_ordered qe w"
  shows "schedule_lane X thr oq max_num i ln max_deq w = schedule_lane X thr oq max_num i ln 1 w \<and>
    (case schedule_lane X thr oq max_num i ln max_deq w of
       Continue md w' \<Rightarrow> md = 1 \<and> qe_events (queue_tbl w' qe) = qe_events (queue_tbl w qe)
     | Return ret evs out w' \<Rightarrow>
         qe_events (queue_tbl w' qe) = tl (qe_events (queue_tbl w qe)) \<and>
         ret + sl_num (sched_local w') = 1 \<and> sl_origin_qe (sched_local w') = Some qe
     | Aborted \<Rightarrow> False)"
  using assms
  unfolding schedule_lane_def schedule_dequeue_def odp_queue_deq_def odp_queue_enq_def
    queue_deq_multi_def queue_is_ordered_def queue_is_atomic_def queue_destroy_finalize_def
  by (cases "qe_events (queue_tbl w qe)")
     (auto simp add: Let_def copy_events_eq min_def split: prod.splits)

text \<open>
  Events that a pass over a lane returns come from the drain step, they are events of
  the queue it drained, and if that queue is ordered there is one of them.
\<close>

lemma schedule_lane_return_dequeue:
  assumes "schedule_lane X thr oq max_num i ln max_deq w = Return ret evs out w'"
  shows "\<exists>pri_q qe w1. schedule_dequeue oq max_num pri_q qe max_deq w1 = Return ret evs out w'"
  using assms
  unfolding schedule_lane_def
  by (auto simp add: Let_def
      split: if_splits sched_cmd_t.splits prod.splits option.splits)

lemma schedule_dequeue_return_ordered:
  assumes "schedule_dequeue oq max_num pri_q qe max_deq w = Return ret evs out w'"
  shows "sl_qe (sched_local w') = Some qe \<and>
         (queue_is_ordered qe w' \<longrightarrow> queue_is_ordered qe w \<and> ret + sl_num (sched_local w') = 1)"
  using assms
  unfolding schedule_dequeue_def odp_queue_enq_def queue_deq_multi_def
    queue_is_ordered_def queue_is_atomic_def
  by (cases "qe_events (queue_tbl w qe)")
     (auto simp add: Let_def copy_events_eq min_def
      split: if_splits prod.splits option.splits dest: copy_events_qe)

lemma schedule_dequeue_return_one:
  assumes "schedule_dequeue oq max_num pri_q qe max_deq w = Return ret evs out w'"
    and "queue_is_ordered qe w'" and "ret \<noteq> 0"
  shows "ret = 1 \<and> sl_num (sched_local w') = 0"
  using assms
  unfolding schedule_dequeue_def odp_queue_enq_def queue_deq_multi_def
    queue_is_ordered_def queue_is_atomic_def
  by (cases "qe_events (queue_tbl w qe)")
     (auto simp add: Let_def copy_events_eq min_def
      split: if_splits prod.splits option.splits)

lemma schedule_dispatch_ordered:
  assumes "sl_num (sched_local w) = 0"
    and "schedule X thr oq max_num max_deq w = Return ret evs out w'" and "ret \<noteq> 0"
    and "sl_qe (sched_local w') = Some qe" and "queue_is_ordered qe w'"
  shows "ret = 1 \<and> sl_num (sched_local w') = 0"
proof -
  from schedule_dispatch_lane [OF assms(1-3)] obtain i ln md w0
    where "schedule_lane X thr oq max_num i ln md w0 = Return ret evs out w'" by blast
  from schedule_lane_return_dequeue [OF this] obtain pri_q q w1
    where d: "schedule_dequeue oq max_num pri_q q md w1 = Return ret evs out w'" by blast
  from schedule_dequeue_return_ordered [OF d] assms(4) have "q = qe" by simp
  with d have "schedule_dequeue oq max_num pri_q qe md w1 = Return ret evs out w'" by simp
  then show ?thesis using assms(5,3) by (rule schedule_dequeue_return_one)
qed

text \<open>
  Claim C7: when \<^verbatim>\<open>schedule\<close> dispatches the DEQUEUE command of an ordered queue (the
  token is at the head of a lane whose bit is set, and the thread passes the group
  check), the drain asks for one event whatever \<^verbatim>\<open>max_deq\<close> was passed in: the lane
  pass is the one with \<open>max_deq = 1\<close>. It goes on with \<open>max_deq = 1\<close> and the queue's
  events untouched (queue empty or destroyed), or it returns after taking exactly the
  first event of the queue, with the ordered context of the queue held. So a call of
  \<^verbatim>\<open>schedule\<close> that finds no cached events and returns events of an ordered queue returns
  one event and leaves none in the cache.
\<close>

theorem schedule_lane_ordered_one:
  "(mask_bit_set (pri_mask (sched w) ! i) ln \<and>
    lane_events (lanes w (pri_queue (sched w) ! i ! ln)) = SCHED_CMD_DEQUEUE qe # rest \<and>
    length (lane_events (lanes w (pri_queue (sched w) ! i ! ln)))
      \<le> lane_size (lanes w (pri_queue (sched w) ! i ! ln)) \<and>
    \<not> (ODP_SCHED_GROUP_ALL < qe_group (queue_tbl w qe) \<and>
       \<not> odp_thrmask_isset (grp_mask (sched_grp (sched w) ! nat (qe_group (queue_tbl w qe)))) thr) \<and>
    queue_is_ordered qe w
    \<longrightarrow>
    schedule_lane X thr oq max_num i ln max_deq w = schedule_lane X thr oq max_num i ln 1 w \<and>
    (case schedule_lane X thr oq max_num i ln max_deq w of
       Continue md w' \<Rightarrow> md = 1 \<and> qe_events (queue_tbl w' qe) = qe_events (queue_tbl w qe)
     | Return ret evs out w' \<Rightarrow>
         qe_events (queue_tbl w' qe) = tl (qe_events (queue_tbl w qe)) \<and>
         ret + sl_num (sched_local w') = 1 \<and> sl_origin_qe (sched_local w') = Some qe
     | Aborted \<Rightarrow> False)) \<and>
   (sl_num (sched_local v) = 0 \<and>
    schedule X thr oq max_num max_deq v = Return r es ou v' \<and> r \<noteq> 0 \<and>
    sl_qe (sched_local v') = Some q \<and> queue_is_ordered q v'
    \<longrightarrow> r = 1 \<and> sl_num (sched_local v') = 0)"
proof (intro conjI impI)
  assume "mask_bit_set (pri_mask (sched w) ! i) ln \<and>
    lane_events (lanes w (pri_queue (sched w) ! i ! ln)) = SCHED_CMD_DEQUEUE qe # rest \<and>
    length (lane_events (lanes w (pri_queue (sched w) ! i ! ln)))
      \<le> lane_size (lanes w (pri_queue (sched w) ! i ! ln)) \<and>
    \<not> (ODP_SCHED_GROUP_ALL < qe_group (queue_tbl w qe) \<and>
       \<not> odp_thrmask_isset (grp_mask (sched_grp (sched w) ! nat (qe_group (queue_tbl w qe)))) thr) \<and>
    queue_is_ordered qe w"
  then have h: "mask_bit_set (pri_mask (sched w) ! i) ln"
    "lane_events (lanes w (pri_queue (sched w) ! i ! ln)) = SCHED_CMD_DEQUEUE qe # rest"
    "length (lane_events (lanes w (pri_queue (sched w) ! i ! ln)))
      \<le> lane_size (lanes w (pri_queue (sched w) ! i ! ln))"
    "\<not> (ODP_SCHED_GROUP_ALL < qe_group (queue_tbl w qe) \<and>
       \<not> odp_thrmask_isset (grp_mask (sched_grp (sched w) ! nat (qe_group (queue_tbl w qe)))) thr)"
    "queue_is_ordered qe w"
    by blast+
  from schedule_lane_ordered [OF h]
  show "schedule_lane X thr oq max_num i ln max_deq w = schedule_lane X thr oq max_num i ln 1 w"
    and "case schedule_lane X thr oq max_num i ln max_deq w of
       Continue md w' \<Rightarrow> md = 1 \<and> qe_events (queue_tbl w' qe) = qe_events (queue_tbl w qe)
     | Return ret evs out w' \<Rightarrow>
         qe_events (queue_tbl w' qe) = tl (qe_events (queue_tbl w qe)) \<and>
         ret + sl_num (sched_local w') = 1 \<and> sl_origin_qe (sched_local w') = Some qe
     | Aborted \<Rightarrow> False"
    by blast+
next
  assume "sl_num (sched_local v) = 0 \<and>
    schedule X thr oq max_num max_deq v = Return r es ou v' \<and> r \<noteq> 0 \<and>
    sl_qe (sched_local v') = Some q \<and> queue_is_ordered q v'"
  then have a: "sl_num (sched_local v) = 0"
    "schedule X thr oq max_num max_deq v = Return r es ou v'" "r \<noteq> 0"
    "sl_qe (sched_local v') = Some q" "queue_is_ordered q v'"
    by blast+
  from schedule_dispatch_ordered [OF a]
  show "r = 1" and "sl_num (sched_local v') = 0" by blast+
qed

theorem schedule_lane_ordered_one_witness:
  "mask_bit_set (pri_mask (sched ord_world) ! 0) 2 \<and>
   lane_events (lanes ord_world (pri_queue (sched ord_world) ! 0 ! 2)) = SCHED_CMD_DEQUEUE 6 # [] \<and>
   length (lane_events (lanes ord_world (pri_queue (sched ord_world) ! 0 ! 2)))
     \<le> lane_size (lanes ord_world (pri_queue (sched ord_world) ! 0 ! 2)) \<and>
   \<not> (ODP_SCHED_GROUP_ALL < qe_group (queue_tbl ord_world 6) \<and>
      \<not> odp_thrmask_isset
          (grp_mask (sched_grp (sched ord_world) ! nat (qe_group (queue_tbl ord_world 6)))) 0) \<and>
   queue_is_ordered 6 ord_world \<and>
   schedule_lane failing_platform 0 True 4 0 2 MAX_DEQ ord_world
     = schedule_lane failing_platform 0 True 4 0 2 1 ord_world \<and>
   sl_num (sched_local ord_world) = 0 \<and>
   schedule failing_platform 0 True 4 MAX_DEQ ord_world
     = Return 1 [21] (Some 6) ord_world_served \<and>
   sl_qe (sched_local ord_world_served) = Some 6 \<and> queue_is_ordered 6 ord_world_served \<and>
   sl_num (sched_local ord_world_served) = 0"
proof -
  have h: "mask_bit_set (pri_mask (sched ord_world) ! 0) 2 \<and>
    lane_events (lanes ord_world (pri_queue (sched ord_world) ! 0 ! 2)) = SCHED_CMD_DEQUEUE 6 # [] \<and>
    length (lane_events (lanes ord_world (pri_queue (sched ord_world) ! 0 ! 2)))
       \<le> lane_size (lanes ord_world (pri_queue (sched ord_world) ! 0 ! 2)) \<and>
    \<not> (ODP_SCHED_GROUP_ALL < qe_group (queue_tbl ord_world 6) \<and>
        \<not> odp_thrmask_isset
            (grp_mask (sched_grp (sched ord_world) ! nat (qe_group (queue_tbl ord_world 6)))) 0) \<and>
    queue_is_ordered 6 ord_world"
    by (simp add: world_eval grp_eval sched_eval)
  have r: "replicate 2 (0 :: 64 word) = [0, 0]" by (simp add: numeral_2_eq_2)
  have c: "sl_num (sched_local ord_world) = 0 \<and>
    schedule failing_platform 0 True 4 MAX_DEQ ord_world
       = Return 1 [21] (Some 6) ord_world_served \<and> (1::int) \<noteq> 0 \<and>
    sl_qe (sched_local ord_world_served) = Some 6 \<and> queue_is_ordered 6 ord_world_served"
    by (simp add: world_eval grp_eval sched_eval ord_world_served_def r)
  note t = schedule_lane_ordered_one [where w = ord_world and i = 0 and ln = 2 and qe = 6
        and rest = "[]" and thr = 0 and X = failing_platform and oq = True and max_num = 4
        and max_deq = MAX_DEQ and v = ord_world and r = 1 and es = "[21]"
        and ou = "Some 6" and v' = ord_world_served and q = 6]
  from t [THEN conjunct1, THEN mp, OF h]
  have p1: "schedule_lane failing_platform 0 True 4 0 2 MAX_DEQ ord_world
     = schedule_lane failing_platform 0 True 4 0 2 1 ord_world" by (rule conjunct1)
  from t [THEN conjunct2, THEN mp, OF c]
  have p2: "sl_num (sched_local ord_world_served) = 0" by (rule conjunct2)
  from h p1 c p2 show ?thesis by blast
qed


subsection \<open>Ordered locks\<close>

lemmas order_lock_wait_numeral =
  order_lock_wait.simps(2) [where n = "pred_numeral k", folded numeral_eq_Suc] for k

lemmas lock_eval =
  odp_schedule_order_lock_def odp_schedule_order_unlock_def sync_out_load_def
  order_lock_wait_numeral

text \<open>The wait loop ends only on a load that equals the sync number.\<close>

lemma order_lock_wait_returns_equal:
  "order_lock_wait n X qe lock_index sync w = Some w' \<Longrightarrow>
     sync_out_load qe lock_index w' = sync"
  by (induction n arbitrary: w) (auto split: if_splits)

text \<open>
  It does end once the other threads have brought the counter to the sync number:
  if that is so after \<open>k\<close> rounds of \<^verbatim>\<open>odp_spin\<close>, more than \<open>k\<close> loads suffice.
\<close>

lemma order_lock_wait_enough:
  "sync_out_load qe lock_index ((odp_spin X ^^ k) w) = sync \<Longrightarrow> k < n \<Longrightarrow>
     \<exists>w'. order_lock_wait n X qe lock_index sync w = Some w'"
proof (induction n arbitrary: w k)
  case 0
  then show ?case by simp
next
  case (Suc n)
  show ?case
  proof (cases "sync = sync_out_load qe lock_index w")
    case True
    then show ?thesis by simp
  next
    case False
    with Suc.prems obtain j where j: "k = Suc j" by (cases k) auto
    with Suc.prems
    have "sync_out_load qe lock_index ((odp_spin X ^^ j) (odp_spin X w)) = sync" "j < n"
      by (simp_all add: funpow_swap1)
    from Suc.IH [OF this] False show ?thesis by simp
  qed
qed

lemma word64_succ_greater: "(c :: 64 word) \<noteq> - 1 \<Longrightarrow> c < c + 1"
proof -
  assume "c \<noteq> - 1"
  then have "1 + c \<noteq> 0" by (simp add: eq_neg_iff_add_eq_0 add.commute)
  then have "unat (1 + c) = Suc (unat c)" by (rule unatSuc)
  then show ?thesis by (simp add: word_less_nat_alt add.commute)
qed

text \<open>
  Claim C3, as stated: after \<^verbatim>\<open>order_unlock(i)\<close> the counter \<open>sync_out[i]\<close> is strictly
  greater than before. The counter is a \<^verbatim>\<open>uint64_t\<close> that
  \<^verbatim>\<open>odp_atomic_fetch_inc_u64\<close> increments: at \<open>2^64 - 1\<close> the increment wraps to 0,
  which is not greater.
\<close>

theorem order_unlock_wrap_counterexample:
  "sl_origin_qe (sched_local wrap_world) = Some 6 \<and>
   0 < qe_lock_count (queue_tbl wrap_world 6) \<and>
   sync_out_load 6 0 wrap_world = 0xFFFFFFFFFFFFFFFF \<and>
   sl_sync (sched_local wrap_world) ! 0 = sync_out_load 6 0 wrap_world \<and>
   odp_schedule_order_unlock failing_platform 0 wrap_world = Ok wrapped_world \<and>
   sync_out_load 6 0 wrapped_world = 0 \<and>
   \<not> sync_out_load 6 0 wrap_world < sync_out_load 6 0 wrapped_world"
proof -
  have wrap: "(18446744073709551616 :: 64 word) = 0" by simp
  show ?thesis by (simp add: world_eval lock_eval wrap)
qed

text \<open>
  Claim C3, amended: \<^verbatim>\<open>order_lock(i)\<close> and \<^verbatim>\<open>order_unlock(i)\<close> return at once and change
  nothing when no ordered context is held or \<open>i >= lock_count\<close>. With an ordered context
  and \<open>i < lock_count\<close>, \<^verbatim>\<open>order_lock(i)\<close> returns only in a state where \<open>sync_out[i]\<close>
  equals the context's \<open>sync[i]\<close>, and \<^verbatim>\<open>order_unlock(i)\<close>, when it returns, has added one
  to \<open>sync_out[i]\<close> modulo \<open>2^64\<close>: the counter is strictly greater than before unless
  it was \<open>2^64 - 1\<close>. (\<open>i\<close> is an index of the array \<open>sync_out\<close>.)
\<close>

theorem order_lock_unlock:
  "((sl_origin_qe (sched_local w) = None \<or>
     (\<exists>q. sl_origin_qe (sched_local w) = Some q \<and> qe_lock_count (queue_tbl w q) \<le> i)) \<longrightarrow>
      odp_schedule_order_lock n X i w = Some (Ok w) \<and> odp_schedule_order_unlock X i w = Ok w) \<and>
   (sl_origin_qe (sched_local w) = Some q \<and> i < qe_lock_count (queue_tbl w q) \<and>
    odp_schedule_order_lock n X i w = Some (Ok w1) \<longrightarrow>
      sync_out_load q i w1 = sl_sync (sched_local w) ! i) \<and>
   (sl_origin_qe (sched_local w) = Some q \<and> i < qe_lock_count (queue_tbl w q) \<and>
    i < length (qe_sync_out (queue_tbl w q)) \<and> odp_schedule_order_unlock X i w = Ok w2 \<longrightarrow>
      sync_out_load q i w2 = sync_out_load q i w + 1 \<and>
      (sync_out_load q i w \<noteq> - 1 \<longrightarrow> sync_out_load q i w < sync_out_load q i w2))"
proof (intro conjI impI)
  assume "sl_origin_qe (sched_local w) = None \<or>
     (\<exists>q. sl_origin_qe (sched_local w) = Some q \<and> qe_lock_count (queue_tbl w q) \<le> i)"
  then show "odp_schedule_order_lock n X i w = Some (Ok w)"
    "odp_schedule_order_unlock X i w = Ok w"
    by (auto simp add: odp_schedule_order_lock_def odp_schedule_order_unlock_def)
next
  assume "sl_origin_qe (sched_local w) = Some q \<and> i < qe_lock_count (queue_tbl w q) \<and>
    odp_schedule_order_lock n X i w = Some (Ok w1)"
  then have "order_lock_wait n X q i (sl_sync (sched_local w) ! i) w = Some w1"
    by (auto simp add: odp_schedule_order_lock_def Let_def split: if_splits)
  then show "sync_out_load q i w1 = sl_sync (sched_local w) ! i"
    by (rule order_lock_wait_returns_equal)
next
  assume "sl_origin_qe (sched_local w) = Some q \<and> i < qe_lock_count (queue_tbl w q) \<and>
    i < length (qe_sync_out (queue_tbl w q)) \<and> odp_schedule_order_unlock X i w = Ok w2"
  then show s: "sync_out_load q i w2 = sync_out_load q i w + 1"
    by (auto simp add: odp_schedule_order_unlock_def sync_out_load_def split: if_splits)
  assume "sync_out_load q i w \<noteq> - 1"
  then show "sync_out_load q i w < sync_out_load q i w2"
    unfolding s by (rule word64_succ_greater)
qed

theorem order_lock_unlock_witness:
  "sl_origin_qe (sched_local idle_world) = None \<and>
   odp_schedule_order_lock 0 failing_platform 0 idle_world = Some (Ok idle_world) \<and>
   odp_schedule_order_unlock failing_platform 0 idle_world = Ok idle_world \<and>
   sl_origin_qe (sched_local lock_wait_world) = Some 6 \<and>
   0 < qe_lock_count (queue_tbl lock_wait_world 6) \<and>
   odp_schedule_order_lock 1 peer_unlocks 0 lock_wait_world = None \<and>
   odp_schedule_order_lock 2 peer_unlocks 0 lock_wait_world = Some (Ok lock_held_world) \<and>
   sync_out_load 6 0 lock_held_world = sl_sync (sched_local lock_wait_world) ! 0 \<and>
   sl_origin_qe (sched_local lock_held_world) = Some 6 \<and>
   0 < qe_lock_count (queue_tbl lock_held_world 6) \<and>
   0 < length (qe_sync_out (queue_tbl lock_held_world 6)) \<and>
   odp_schedule_order_unlock peer_unlocks 0 lock_held_world = Ok lock_released_world \<and>
   sync_out_load 6 0 lock_held_world \<noteq> - 1 \<and>
   sync_out_load 6 0 lock_held_world < sync_out_load 6 0 lock_released_world"
proof -
  have a: "sl_origin_qe (sched_local idle_world) = None"
    by (simp add: world_eval)
  have b: "sl_origin_qe (sched_local lock_wait_world) = Some 6"
    "0 < qe_lock_count (queue_tbl lock_wait_world 6)"
    "odp_schedule_order_lock 1 peer_unlocks 0 lock_wait_world = None"
    "odp_schedule_order_lock 2 peer_unlocks 0 lock_wait_world = Some (Ok lock_held_world)"
    by (simp_all add: world_eval lock_eval)
  have c: "sl_origin_qe (sched_local lock_held_world) = Some 6"
    "0 < qe_lock_count (queue_tbl lock_held_world 6)"
    "0 < length (qe_sync_out (queue_tbl lock_held_world 6))"
    "odp_schedule_order_unlock peer_unlocks 0 lock_held_world = Ok lock_released_world"
    "sync_out_load 6 0 lock_held_world \<noteq> - 1"
    by (simp_all add: world_eval lock_eval)
  have 1: "odp_schedule_order_lock 0 failing_platform 0 idle_world = Some (Ok idle_world)"
    "odp_schedule_order_unlock failing_platform 0 idle_world = Ok idle_world"
    using order_lock_unlock [where w = idle_world and n = 0 and X = failing_platform and i = 0] a
    by blast+
  have 2: "sync_out_load 6 0 lock_held_world = sl_sync (sched_local lock_wait_world) ! 0"
    using order_lock_unlock [where w = lock_wait_world and n = 2 and X = peer_unlocks
        and i = 0 and q = 6 and ?w1.0 = lock_held_world] b
    by blast
  have 3: "sync_out_load 6 0 lock_held_world < sync_out_load 6 0 lock_released_world"
    using order_lock_unlock [where w = lock_held_world and X = peer_unlocks and i = 0
        and q = 6 and ?w2.0 = lock_released_world] c
    by blast
  show ?thesis using a b c 1 2 3 by simp
qed

subsection \<open>The waiting wrapper\<close>

lemmas schedule_loop_from_numeral =
  schedule_loop_from.simps(2) [where n = "pred_numeral k", folded numeral_eq_Suc] for k

lemmas loop_eval = schedule_loop_def schedule_loop_from_numeral odp_time_cycles_def

text \<open>A paused thread without context and cache gets nothing and changes nothing.\<close>

lemma schedule_paused:
  assumes "sl_num (sched_local w) = 0" and "sl_origin_qe (sched_local w) = None"
    and "sl_pri_queue (sched_local w) = None" and "sl_pause (sched_local w) \<noteq> 0"
  shows "schedule X thr oq max_num max_deq w = Return 0 [] None w"
  using assms
  by (simp add: schedule_def odp_schedule_release_context_def odp_schedule_release_atomic_def)

text \<open>
  Claim C9, as stated: for a finite wait the wrapper takes a snapshot of the cycle
  counter on the first empty attempt and returns 0 on a later empty attempt once the
  elapsed cycles exceed \<open>wait\<close>. The code keeps the snapshot in \<^verbatim>\<open>start_cycle\<close> and
  takes \<^verbatim>\<open>start_cycle == 0\<close> for "no snapshot yet": when the counter reads 0 at the
  first empty attempt, the second empty attempt takes a snapshot again instead of
  comparing. With \<open>wait = 5\<close> and the readings 0, 100, 200 of a paused thread, 100
  cycles have elapsed at the second attempt, and the loop is still running after it; it
  returns at the third.
\<close>

theorem schedule_loop_zero_snapshot_counterexample:
  "schedule failing_platform 0 False 1 MAX_DEQ paused_world = Return 0 [] None paused_world \<and>
   cycle_src paused_world 0 = 0 \<and> cycle_src paused_world 1 = 100 \<and>
   5 \<noteq> ODP_SCHED_WAIT failing_platform \<and> 5 \<noteq> ODP_SCHED_NO_WAIT failing_platform \<and>
   5 < odp_time_diff_cycles failing_platform 0 100 \<and>
   schedule_loop 2 failing_platform 0 False 5 1 MAX_DEQ paused_world = None \<and>
   schedule_loop 3 failing_platform 0 False 5 1 MAX_DEQ paused_world
     = Some (Return 0 [] None (paused_world\<lparr> cycle_reads := 3 \<rparr>))"
  by (simp add: world_eval loop_eval sched_eval)

text \<open>
  Claim C9, amended. With \<open>wait = NO_WAIT\<close> (a value other than \<open>WAIT\<close>) the wrapper
  returns what the first call of \<^verbatim>\<open>schedule\<close> returns. A positive result of
  \<^verbatim>\<open>schedule\<close> is returned at once, whatever \<open>wait\<close> and \<^verbatim>\<open>start_cycle\<close> are. For any
  other finite \<open>wait\<close>, the first empty attempt stores a reading of the cycle counter
  in \<^verbatim>\<open>start_cycle\<close> and retries; a later empty attempt made while \<^verbatim>\<open>start_cycle\<close> is
  not 0 reads the counter and returns 0 if the cycles elapsed since the snapshot
  exceed \<open>wait\<close>, and retries otherwise. (An empty attempt made while \<^verbatim>\<open>start_cycle\<close>
  is 0 only takes a snapshot.) \<open>schedule_loop\<close> is the loop entered with
  \<^verbatim>\<open>start_cycle = 0\<close>; \<open>schedule_loop_from\<close> is the loop at any value of it.
\<close>

theorem schedule_loop_modes:
  "(ODP_SCHED_WAIT X \<noteq> ODP_SCHED_NO_WAIT X \<longrightarrow>
      schedule_loop (Suc n) X thr oq (ODP_SCHED_NO_WAIT X) max_num max_deq w
        = Some (schedule X thr oq max_num max_deq w)) \<and>
   (schedule X thr oq max_num max_deq w = Return ret evs out w' \<and> 0 < ret \<longrightarrow>
      schedule_loop_from (Suc n) X thr oq wait max_num max_deq start w
        = Some (Return ret evs out w')) \<and>
   (wait \<noteq> ODP_SCHED_WAIT X \<and> wait \<noteq> ODP_SCHED_NO_WAIT X \<and>
    schedule X thr oq max_num max_deq w = Return 0 evs out w' \<longrightarrow>
      schedule_loop (Suc n) X thr oq wait max_num max_deq w
        = schedule_loop_from n X thr oq wait max_num max_deq (cycle_src w' (cycle_reads w'))
            (w'\<lparr> cycle_reads := cycle_reads w' + 1 \<rparr>) \<and>
      (start \<noteq> 0 \<longrightarrow>
         schedule_loop_from (Suc n) X thr oq wait max_num max_deq start w
           = (if wait < odp_time_diff_cycles X start (cycle_src w' (cycle_reads w'))
              then Some (Return 0 evs out (w'\<lparr> cycle_reads := cycle_reads w' + 1 \<rparr>))
              else schedule_loop_from n X thr oq wait max_num max_deq start
                     (w'\<lparr> cycle_reads := cycle_reads w' + 1 \<rparr>))))"
  by (cases "schedule X thr oq max_num max_deq w")
     (auto simp add: schedule_loop_def odp_time_cycles_def Let_def)

text \<open>
  End to end, for a thread whose attempts all come back empty and leave the state as
  it is (a paused thread, by \<open>schedule_paused\<close>): entered with a snapshot, the loop
  returns 0 at the first reading of the counter that is more than \<open>wait\<close> cycles after
  the snapshot, provided it is given that many attempts.
\<close>

lemma schedule_loop_timeout:
  assumes stuck: "\<And>c. schedule X thr oq max_num max_deq (w\<lparr> cycle_reads := c \<rparr>)
                        = Return 0 [] None (w\<lparr> cycle_reads := c \<rparr>)"
    and fin: "wait \<noteq> ODP_SCHED_WAIT X" "wait \<noteq> ODP_SCHED_NO_WAIT X" and st: "start \<noteq> 0"
    and before: "\<forall>j<k. \<not> wait < odp_time_diff_cycles X start (cycle_src w (c + j))"
    and at: "wait < odp_time_diff_cycles X start (cycle_src w (c + k))"
  shows "schedule_loop_from n X thr oq wait max_num max_deq start (w\<lparr> cycle_reads := c \<rparr>)
           = (if k < n then Some (Return 0 [] None (w\<lparr> cycle_reads := c + k + 1 \<rparr>)) else None)"
  using before at
proof (induction n arbitrary: c k)
  case 0
  then show ?case by simp
next
  case (Suc n)
  show ?case
  proof (cases k)
    case 0
    with Suc.prems stuck [of c] fin st show ?thesis
      by (simp add: odp_time_cycles_def)
  next
    case (Suc j)
    with Suc.prems have no: "\<not> wait < odp_time_diff_cycles X start (cycle_src w c)"
      by (metis add.right_neutral zero_less_Suc)
    from Suc Suc.prems
    have b: "\<forall>i<j. \<not> wait < odp_time_diff_cycles X start (cycle_src w (Suc c + i))"
      and a: "wait < odp_time_diff_cycles X start (cycle_src w (Suc c + j))"
      by (auto simp add: less_Suc_eq_0_disj)
    from Suc.IH [OF b a] Suc no stuck [of c] fin st show ?thesis
      by (simp add: odp_time_cycles_def)
  qed
qed

theorem schedule_loop_modes_witness:
  "ODP_SCHED_WAIT failing_platform \<noteq> ODP_SCHED_NO_WAIT failing_platform \<and>
   schedule_loop (Suc 0) failing_platform 0 False (ODP_SCHED_NO_WAIT failing_platform) 1
       MAX_DEQ paused_world
     = Some (schedule failing_platform 0 False 1 MAX_DEQ paused_world) \<and>
   schedule failing_platform 0 True 1 MAX_DEQ grp_world
     = Return 1 [11] (Some 5) grp_world_served \<and>
   schedule_loop_from (Suc 0) failing_platform 0 True 5 1 MAX_DEQ 0 grp_world
     = Some (Return 1 [11] (Some 5) grp_world_served) \<and>
   5 \<noteq> ODP_SCHED_WAIT failing_platform \<and> 5 \<noteq> ODP_SCHED_NO_WAIT failing_platform \<and>
   schedule failing_platform 0 False 1 MAX_DEQ (paused_world\<lparr> cycle_reads := 2 \<rparr>)
     = Return 0 [] None (paused_world\<lparr> cycle_reads := 2 \<rparr>) \<and>
   schedule_loop_from (Suc 0) failing_platform 0 False 5 1 MAX_DEQ 100
       (paused_world\<lparr> cycle_reads := 2 \<rparr>)
     = Some (Return 0 [] None (paused_world\<lparr> cycle_reads := 3 \<rparr>))"
proof -
  have a: "ODP_SCHED_WAIT failing_platform \<noteq> ODP_SCHED_NO_WAIT failing_platform"
    "5 \<noteq> ODP_SCHED_WAIT failing_platform" "5 \<noteq> ODP_SCHED_NO_WAIT failing_platform"
    by (simp_all add: world_eval)
  have b: "schedule failing_platform 0 True 1 MAX_DEQ grp_world
             = Return 1 [11] (Some 5) grp_world_served"
    by (simp add: world_eval grp_eval sched_eval)
  have c: "schedule failing_platform 0 False 1 MAX_DEQ (paused_world\<lparr> cycle_reads := 2 \<rparr>)
             = Return 0 [] None (paused_world\<lparr> cycle_reads := 2 \<rparr>)"
    by (rule schedule_paused) (simp_all add: world_eval)
  have d: "(100 :: 64 word) \<noteq> 0"
    "5 < odp_time_diff_cycles failing_platform 100
           (cycle_src (paused_world\<lparr> cycle_reads := 2 \<rparr>)
              (cycle_reads (paused_world\<lparr> cycle_reads := 2 \<rparr>)))"
    "(paused_world\<lparr> cycle_reads := 2 \<rparr>)
        \<lparr> cycle_reads := cycle_reads (paused_world\<lparr> cycle_reads := 2 \<rparr>) + 1 \<rparr>
      = paused_world\<lparr> cycle_reads := 3 \<rparr>"
    by (simp_all add: world_eval)
  have 1: "schedule_loop (Suc 0) failing_platform 0 False (ODP_SCHED_NO_WAIT failing_platform) 1
             MAX_DEQ paused_world
           = Some (schedule failing_platform 0 False 1 MAX_DEQ paused_world)"
    using schedule_loop_modes [where X = failing_platform and n = 0 and w = paused_world] a(1)
    by blast
  have 2: "schedule_loop_from (Suc 0) failing_platform 0 True 5 1 MAX_DEQ 0 grp_world
             = Some (Return 1 [11] (Some 5) grp_world_served)"
    using schedule_loop_modes [where X = failing_platform and n = 0 and w = grp_world
        and thr = 0 and oq = True and max_num = 1 and max_deq = MAX_DEQ and ret = 1
        and evs = "[11]" and out = "Some 5" and w' = grp_world_served and wait = 5
        and start = 0] b
    by simp
  have 3: "schedule_loop_from (Suc 0) failing_platform 0 False 5 1 MAX_DEQ 100
             (paused_world\<lparr> cycle_reads := 2 \<rparr>)
           = Some (Return 0 [] None (paused_world\<lparr> cycle_reads := 3 \<rparr>))"
    using schedule_loop_modes [where X = failing_platform and n = 0
        and w = "paused_world\<lparr> cycle_reads := 2 \<rparr>" and thr = 0 and oq = False
        and max_num = 1 and max_deq = MAX_DEQ and evs = "[]" and out = None
        and w' = "paused_world\<lparr> cycle_reads := 2 \<rparr>" and wait = 5 and start = 100] a c d
    by simp
  show ?thesis using a b c 1 2 3 by simp
qed

end
